theory Spec2Isabelle
  imports Main "HOL-Library.AList" "HOL-Library.Sublist"
begin

section \<open>Paths\<close>

text \<open>
  A \<open>pathlib.Path\<close> is the list of its components below the root; \<open>[]\<close> is the root
  itself. \<open>dir / name\<close> with a name that holds no separator appends one component,
  \<open>Path.parent\<close> drops the last one (the root is its own parent), \<open>Path.name\<close> is the
  last one and \<open>str\<close> joins the components with slashes.
\<close>

type_synonym path = "string list"

definition joinpath :: "path \<Rightarrow> string \<Rightarrow> path" where
  "joinpath d n = d @ [n]"

definition parent :: "path \<Rightarrow> path" where
  "parent p = butlast p"

definition name_of :: "path \<Rightarrow> string" where
  "name_of p = (if p = [] then [] else last p)"

definition path_str :: "path \<Rightarrow> string" where
  "path_str p = (if p = [] then ''/'' else concat (map (\<lambda>c. ''/'' @ c) p))"

text \<open>
  \<open>str.rfind\<close> for a single character: the index of its last occurrence, or \<open>-1\<close>.
\<close>

definition rfind :: "string \<Rightarrow> char \<Rightarrow> int" where
  "rfind s c =
     (if c \<in> set s
      then int (length s) - 1 - int (length (takeWhile (\<lambda>x. x \<noteq> c) (rev s)))
      else - 1)"

text \<open>
  \<open>Path.stem\<close>: the name up to its last dot, when that dot is neither the first nor
  the last character of the name; the whole name otherwise.
\<close>

definition stem :: "path \<Rightarrow> string" where
  "stem p =
     (let n = name_of p; i = rfind n CHR ''.''
      in if 0 < i \<and> i < int (length n) - 1 then take (nat i) n else n)"

text \<open>\<open>str(i)\<close> for a page number: its decimal digits.\<close>

definition digit :: "nat \<Rightarrow> char" where
  "digit d = char_of (48 + d)"

fun dec :: "nat \<Rightarrow> string" where
  "dec n = (if n < 10 then [digit n] else dec (n div 10) @ [digit (n mod 10)])"

declare dec.simps [simp del]

text \<open>
  The output path of page \<open>i\<close> of a document:
  \<open>output_dir / f"{pdf_path.stem}_page_{i}.png"\<close>.
\<close>

definition page_name :: "path \<Rightarrow> nat \<Rightarrow> string" where
  "page_name pdf_path i = stem pdf_path @ ''_page_'' @ dec i @ ''.png''"

definition page_path :: "path \<Rightarrow> path \<Rightarrow> nat \<Rightarrow> path" where
  "page_path output_dir pdf_path i = joinpath output_dir (page_name pdf_path i)"

section \<open>The file system\<close>

text \<open>
  A decoded page is an opaque raster. A file holds a PNG image or other bytes; a
  directory carries the bit that \<open>os.access(dir, os.W_OK)\<close> reads. The file system is an
  association list from paths to nodes, in directory order, so that a directory can be
  listed; every change goes through \<open>AList.update\<close>, which replaces an entry in place
  and appends a new one.
\<close>

datatype image = Image nat

datatype content = Png image | Bytes string

datatype node = Dir bool | File content

type_synonym filesystem = "(path \<times> node) list"

definition stat :: "filesystem \<Rightarrow> path \<Rightarrow> node option" where
  "stat files p = map_of files p"

datatype os_error =
    FileNotFoundError | FileExistsError | NotADirectoryError | IsADirectoryError
  | PermissionError | DeviceError | NameTooLongError

fun os_error_str :: "os_error \<Rightarrow> string" where
  "os_error_str FileNotFoundError = ''[Errno 2] No such file or directory''"
| "os_error_str FileExistsError = ''[Errno 17] File exists''"
| "os_error_str NotADirectoryError = ''[Errno 20] Not a directory''"
| "os_error_str IsADirectoryError = ''[Errno 21] Is a directory''"
| "os_error_str PermissionError = ''[Errno 13] Permission denied''"
| "os_error_str DeviceError = ''[Errno 28] No space left on device''"
| "os_error_str NameTooLongError = ''[Errno 36] File name too long''"

text \<open>Creating a new entry needs a writable parent directory.\<close>

definition create_check :: "filesystem \<Rightarrow> path \<Rightarrow> os_error option" where
  "create_check files p =
     (case stat files (parent p) of
        None \<Rightarrow> Some FileNotFoundError
      | Some (File _) \<Rightarrow> Some NotADirectoryError
      | Some (Dir wr) \<Rightarrow> if wr then None else Some PermissionError)"

section \<open>The process and its collaborators\<close>

text \<open>
  The world the program runs in: the file system; \<open>io_fault\<close>, the paths at which the
  operating system refuses service, either a write only (disk full, file permissions)
  or every access, because the path cannot be resolved (a name that is too long, a
  directory that may not be searched); \<open>convert_from_path\<close>, the PDF renderer, which
  returns the pages of a document or fails with one of the three errors the converter
  catches; \<open>script_file\<close>, the value of \<open>__file__\<close>; the root logger's level and
  handlers; and \<open>logged\<close>, the records handed to the module logger, in order. Which of
  these records reach the sinks is decided by the logging library from the root level;
  the trace keeps every call.
\<close>

datatype decode_error =
    PDFInfoNotInstalledError string | PDFPageCountError string | PDFSyntaxError string

fun decode_error_str :: "decode_error \<Rightarrow> string" where
  "decode_error_str (PDFInfoNotInstalledError m) = m"
| "decode_error_str (PDFPageCountError m) = m"
| "decode_error_str (PDFSyntaxError m) = m"

datatype level = DEBUG | INFO | WARNING | ERROR | CRITICAL

datatype handler = FileHandler path | StreamHandler

datatype fault = WriteRefused | Unresolvable os_error

record world =
  fs :: filesystem
  io_fault :: "path \<Rightarrow> fault option"
  convert_from_path :: "path \<Rightarrow> decode_error + image list"
  script_file :: path
  root_level :: int
  root_handlers :: "handler list"
  logged :: "(level \<times> string) list"

datatype cause = DecodeFailure decode_error | SaveFailure os_error

datatype exn =
    PdfConversionError string cause
  | OSError os_error
  | ValueError string
  | TypeError string
  | SystemExit nat

definition logger_log :: "level \<Rightarrow> string \<Rightarrow> world \<Rightarrow> world" where
  "logger_log lv msg w = w\<lparr>logged := logged w @ [(lv, msg)]\<rparr>"

section \<open>Looking paths up\<close>

text \<open>
  The error with which the operating system answers any access to a path that it
  cannot resolve.
\<close>

definition lookup_error :: "world \<Rightarrow> path \<Rightarrow> os_error option" where
  "lookup_error w p = (case io_fault w p of Some (Unresolvable e) \<Rightarrow> Some e | _ \<Rightarrow> None)"

text \<open>
  \<open>Path.exists()\<close> and \<open>Path.is_dir()\<close> call \<open>stat\<close>. They answer \<open>False\<close> when the
  error is one that \<open>pathlib\<close> ignores (no such entry, not a directory) and raise
  every other \<open>OSError\<close>.
\<close>

definition ignore_error :: "os_error \<Rightarrow> bool" where
  "ignore_error e = (e = FileNotFoundError \<or> e = NotADirectoryError)"

definition path_exists :: "world \<Rightarrow> path \<Rightarrow> os_error + bool" where
  "path_exists w p =
     (case lookup_error w p of
        Some e \<Rightarrow> if ignore_error e then Inr False else Inl e
      | None \<Rightarrow> Inr (stat (fs w) p \<noteq> None))"

definition is_dir :: "world \<Rightarrow> path \<Rightarrow> os_error + bool" where
  "is_dir w p =
     (case lookup_error w p of
        Some e \<Rightarrow> if ignore_error e then Inr False else Inl e
      | None \<Rightarrow> Inr (case stat (fs w) p of Some (Dir _) \<Rightarrow> True | _ \<Rightarrow> False))"

text \<open>\<open>os.access(path, os.W_OK)\<close> never raises: any error is the answer \<open>False\<close>.\<close>

definition os_access_W :: "world \<Rightarrow> path \<Rightarrow> bool" where
  "os_access_W w p = (lookup_error w p = None \<and> stat (fs w) p = Some (Dir True))"

section \<open>Creating directories\<close>

text \<open>\<open>os.mkdir\<close>: fails on an existing entry; a new directory is writable.\<close>

definition os_mkdir :: "world \<Rightarrow> path \<Rightarrow> os_error + world" where
  "os_mkdir w p =
     (case lookup_error w p of
        Some e \<Rightarrow> Inl e
      | None \<Rightarrow>
          (case stat (fs w) p of
             Some _ \<Rightarrow> Inl FileExistsError
           | None \<Rightarrow>
               (case create_check (fs w) p of
                  Some e \<Rightarrow> Inl e
                | None \<Rightarrow> Inr (w\<lparr>fs := AList.update p (Dir True) (fs w)\<rparr>))))"

text \<open>
  What \<open>Path.mkdir\<close> does, with \<open>exist_ok=True\<close>, about an error of \<open>os.mkdir\<close> other
  than a missing parent: the error is swallowed when \<open>is_dir()\<close> answers \<open>True\<close>; an
  error of \<open>is_dir()\<close> itself takes its place.
\<close>

definition mkdir_recover :: "world \<Rightarrow> path \<Rightarrow> os_error \<Rightarrow> os_error + world" where
  "mkdir_recover w p e =
     (case is_dir w p of
        Inl e' \<Rightarrow> Inl e'
      | Inr d \<Rightarrow> if d then Inr w else Inl e)"

text \<open>\<open>Path.mkdir(parents=False, exist_ok=True)\<close>: a missing parent is an error.\<close>

definition mkdir_exist_ok :: "world \<Rightarrow> path \<Rightarrow> os_error + world" where
  "mkdir_exist_ok w p =
     (case os_mkdir w p of
        Inr w' \<Rightarrow> Inr w'
      | Inl FileNotFoundError \<Rightarrow> Inl FileNotFoundError
      | Inl e \<Rightarrow> mkdir_recover w p e)"

text \<open>
  \<open>Path.mkdir(parents=True, exist_ok=True)\<close>: on a missing parent, create the parent
  the same way and try once more.
\<close>

function mkdir_parents :: "world \<Rightarrow> path \<Rightarrow> os_error + world" where
  "mkdir_parents w p =
     (case os_mkdir w p of
        Inr w' \<Rightarrow> Inr w'
      | Inl FileNotFoundError \<Rightarrow>
          if parent p = p then Inl FileNotFoundError
          else (case mkdir_parents w (parent p) of
                  Inl e \<Rightarrow> Inl e
                | Inr w' \<Rightarrow> mkdir_exist_ok w' p)
      | Inl e \<Rightarrow> mkdir_recover w p e)"
  by pat_completeness auto
termination
proof (relation "measure (\<lambda>(w, p). length p)")
  fix w :: world and p :: path
  assume "parent p \<noteq> p"
  then have "p \<noteq> []" by (auto simp: parent_def)
  then show "((w, parent p), (w, p)) \<in> measure (\<lambda>(w, p). length p)"
    by (simp add: parent_def)
qed simp

declare mkdir_parents.simps [simp del]

section \<open>Writing files\<close>

text \<open>
  Opening a file for writing (\<open>img.save\<close>, \<open>logging.FileHandler\<close>): a path that cannot
  be resolved fails with its error, a directory cannot be opened, an existing file can,
  a new file needs a writable parent directory; the device may refuse the write.
\<close>

definition open_check :: "world \<Rightarrow> path \<Rightarrow> os_error option" where
  "open_check w p =
     (case lookup_error w p of
        Some e \<Rightarrow> Some e
      | None \<Rightarrow>
          (case stat (fs w) p of
             Some (Dir _) \<Rightarrow> Some IsADirectoryError
           | Some (File _) \<Rightarrow> if io_fault w p = None then None else Some DeviceError
           | None \<Rightarrow>
               (case create_check (fs w) p of
                  Some e \<Rightarrow> Some e
                | None \<Rightarrow> if io_fault w p = None then None else Some DeviceError)))"

text \<open>
  \<open>img.save(output_path, "PNG")\<close>: the image encoder. A failed save leaves the
  file system as it was (the encoder removes a file it has just created).
\<close>

definition img_save :: "image \<Rightarrow> path \<Rightarrow> world \<Rightarrow> os_error + world" where
  "img_save img p w =
     (case open_check w p of
        Some e \<Rightarrow> Inl e
      | None \<Rightarrow> Inr (w\<lparr>fs := AList.update p (File (Png img)) (fs w)\<rparr>))"

section \<open>The single-document converter\<close>

text \<open>
  The loop of \<open>pdf_to_pngs\<close> over \<open>enumerate(images, start=1)\<close>, with the list
  \<open>output_paths\<close> as accumulator. \<open>output_path.exists()\<close> stands outside the \<open>try\<close>
  block: an \<open>OSError\<close> that it raises leaves the function as it is, while an \<open>OSError\<close>
  of \<open>img.save\<close> is turned into \<open>PdfConversionError\<close>.
\<close>

fun save_pages ::
  "(nat \<times> image) list \<Rightarrow> path \<Rightarrow> path \<Rightarrow> bool \<Rightarrow> path list \<Rightarrow> world
     \<Rightarrow> (exn + path list) \<times> world" where
  "save_pages [] pdf_path output_dir overwrite output_paths w = (Inr output_paths, w)"
| "save_pages ((i, img) # rest) pdf_path output_dir overwrite output_paths w =
     (let output_path = page_path output_dir pdf_path i in
      case path_exists w output_path of
        Inl e \<Rightarrow> (Inl (OSError e), w)
      | Inr present \<Rightarrow>
          if present \<and> \<not> overwrite
          then save_pages rest pdf_path output_dir overwrite output_paths
                 (logger_log INFO (''Skipping existing file: '' @ path_str output_path) w)
          else
            (case img_save img output_path w of
               Inr w' \<Rightarrow>
                 save_pages rest pdf_path output_dir overwrite (output_paths @ [output_path])
                   (logger_log INFO (''Saved '' @ path_str output_path) w')
             | Inl e \<Rightarrow>
                 (Inl (PdfConversionError (''Failed to save '' @ path_str output_path)
                         (SaveFailure e)),
                  logger_log ERROR
                    (''Failed to save '' @ path_str output_path @ '': '' @ os_error_str e) w)))"

definition pdf_to_pngs ::
  "path \<Rightarrow> path \<Rightarrow> bool \<Rightarrow> world \<Rightarrow> (exn + path list) \<times> world" where
  "pdf_to_pngs pdf_path output_dir overwrite w =
     (case convert_from_path w pdf_path of
        Inl e \<Rightarrow>
          (Inl (PdfConversionError (''PDF conversion failed for '' @ path_str pdf_path)
                  (DecodeFailure e)),
           logger_log ERROR
             (''Failed to convert '' @ path_str pdf_path @ '': '' @ decode_error_str e) w)
      | Inr images \<Rightarrow>
          save_pages (List.enumerate 1 images) pdf_path output_dir overwrite [] w)"

section \<open>Logging setup\<close>

text \<open>
  \<open>str.upper\<close> on ASCII letters (the level names are ASCII).
\<close>

definition upper_char :: "char \<Rightarrow> char" where
  "upper_char c =
     (let n = (of_char c :: nat) in if 97 \<le> n \<and> n \<le> 122 then char_of (n - 32) else c)"

definition str_upper :: "string \<Rightarrow> string" where
  "str_upper s = map upper_char s"

text \<open>
  The attributes of the \<open>logging\<close> module whose names are their own upper case: the
  level numbers, the format string \<open>BASIC_FORMAT\<close> and the dictionary \<open>_STYLES\<close>.
  \<open>getattr(logging, name, default)\<close> looks a name up among them.
\<close>

datatype attr = IntAttr int | StrAttr string | DictAttr

definition logging_attrs :: "(string \<times> attr) list" where
  "logging_attrs =
     [(''CRITICAL'', IntAttr 50), (''FATAL'', IntAttr 50), (''ERROR'', IntAttr 40),
      (''WARNING'', IntAttr 30), (''WARN'', IntAttr 30), (''INFO'', IntAttr 20),
      (''DEBUG'', IntAttr 10), (''NOTSET'', IntAttr 0),
      (''BASIC_FORMAT'', StrAttr ''%(levelname)s:%(name)s:%(message)s''),
      (''_STYLES'', DictAttr)]"

definition logging_getattr :: "string \<Rightarrow> attr \<Rightarrow> attr" where
  "logging_getattr n dflt = (case map_of logging_attrs n of Some a \<Rightarrow> a | None \<Rightarrow> dflt)"

definition name_to_level :: "(string \<times> int) list" where
  "name_to_level =
     [(''CRITICAL'', 50), (''FATAL'', 50), (''ERROR'', 40), (''WARN'', 30),
      (''WARNING'', 30), (''INFO'', 20), (''DEBUG'', 10), (''NOTSET'', 0)]"

text \<open>
  \<open>Logger.setLevel\<close> checks its argument: a number is taken, a string must be a level
  name, anything else is a type error.
\<close>

definition check_level :: "attr \<Rightarrow> exn + int" where
  "check_level a =
     (case a of
        IntAttr n \<Rightarrow> Inr n
      | StrAttr s \<Rightarrow>
          (case map_of name_to_level s of
             Some n \<Rightarrow> Inr n
           | None \<Rightarrow> Inl (ValueError (''Unknown level: '' @ s)))
      | DictAttr \<Rightarrow> Inl (TypeError ''Level not an integer or a valid string''))"

text \<open>
  \<open>logging.basicConfig(level=..., handlers=...)\<close>: does nothing when the root logger
  has handlers; otherwise it attaches the handlers and then sets the level.
\<close>

definition basicConfig :: "attr \<Rightarrow> handler list \<Rightarrow> world \<Rightarrow> (exn + unit) \<times> world" where
  "basicConfig lv handlers w =
     (if root_handlers w = []
      then (let w1 = w\<lparr>root_handlers := handlers\<rparr> in
            case check_level lv of
              Inl e \<Rightarrow> (Inl e, w1)
            | Inr n \<Rightarrow> (Inr (), w1\<lparr>root_level := n\<rparr>))
      else (Inr (), w))"

text \<open>
  \<open>logging.FileHandler(log_file, mode="a")\<close> opens the file at once, creating it empty
  when it is missing.
\<close>

definition open_append :: "path \<Rightarrow> world \<Rightarrow> os_error + world" where
  "open_append p w =
     (case open_check w p of
        Some e \<Rightarrow> Inl e
      | None \<Rightarrow>
          Inr (if stat (fs w) p \<noteq> None then w
               else w\<lparr>fs := AList.update p (File (Bytes [])) (fs w)\<rparr>))"

definition configure_logging ::
  "path \<Rightarrow> string \<Rightarrow> bool \<Rightarrow> world \<Rightarrow> (exn + unit) \<times> world" where
  "configure_logging output_dir log_level log_to_console w =
     (case mkdir_parents w output_dir of
        Inl e \<Rightarrow> (Inl (OSError e), w)
      | Inr w1 \<Rightarrow>
          (let log_file = joinpath output_dir ''app.log'' in
           case open_append log_file w1 of
             Inl e \<Rightarrow> (Inl (OSError e), w1)
           | Inr w2 \<Rightarrow>
               (let handlers =
                      FileHandler log_file # (if log_to_console then [StreamHandler] else [])
                in basicConfig (logging_getattr (str_upper log_level) (IntAttr 20)) handlers
                     (w2\<lparr>root_handlers := []\<rparr>))))"

section \<open>Argument resolution\<close>

text \<open>
  The command line as \<open>argparse\<close> reads it, one item per option occurrence: the three
  options that take a value, the console flag, the help flag that \<open>argparse\<close> adds, an
  option whose value is missing, and any other token. The items are handled from left
  to right: a value outside \<open>choices\<close> and a missing value end the parse with status 2,
  the help flag ends it with status 0, and unrecognised tokens are collected and
  reported, with status 2, once the whole line has been read.
\<close>

datatype cli_arg =
    InputDirArg path | OutputDirArg path | LogLevelArg string | LogToConsoleFlag
  | HelpFlag | MissingValue | Unrecognized string

record namespace =
  ns_input_dir :: path
  ns_output_dir :: path
  ns_log_level :: string
  ns_log_to_console :: bool

definition log_level_choices :: "string list" where
  "log_level_choices = [''DEBUG'', ''INFO'', ''WARNING'', ''ERROR'', ''CRITICAL'']"

definition default_namespace :: "world \<Rightarrow> namespace" where
  "default_namespace w =
     \<lparr>ns_input_dir = joinpath (parent (parent (script_file w))) ''data'',
      ns_output_dir = joinpath (parent (parent (script_file w))) ''output'',
      ns_log_level = ''INFO'',
      ns_log_to_console = False\<rparr>"

fun parse_known_args ::
  "cli_arg list \<Rightarrow> namespace \<Rightarrow> string list \<Rightarrow> exn + (namespace \<times> string list)" where
  "parse_known_args [] ns extras = Inr (ns, extras)"
| "parse_known_args (InputDirArg p # rest) ns extras =
     parse_known_args rest (ns\<lparr>ns_input_dir := p\<rparr>) extras"
| "parse_known_args (OutputDirArg p # rest) ns extras =
     parse_known_args rest (ns\<lparr>ns_output_dir := p\<rparr>) extras"
| "parse_known_args (LogLevelArg v # rest) ns extras =
     (if v \<in> set log_level_choices
      then parse_known_args rest (ns\<lparr>ns_log_level := v\<rparr>) extras
      else Inl (SystemExit 2))"
| "parse_known_args (LogToConsoleFlag # rest) ns extras =
     parse_known_args rest (ns\<lparr>ns_log_to_console := True\<rparr>) extras"
| "parse_known_args (HelpFlag # rest) ns extras = Inl (SystemExit 0)"
| "parse_known_args (MissingValue # rest) ns extras = Inl (SystemExit 2)"
| "parse_known_args (Unrecognized t # rest) ns extras =
     parse_known_args rest ns (extras @ [t])"

definition parse_args :: "cli_arg list \<Rightarrow> world \<Rightarrow> exn + namespace" where
  "parse_args args w =
     (case parse_known_args args (default_namespace w) [] of
        Inl e \<Rightarrow> Inl e
      | Inr (ns, extras) \<Rightarrow> if extras = [] then Inr ns else Inl (SystemExit 2))"

section \<open>The batch orchestrator\<close>

text \<open>
  The entries of a directory, in directory order, and \<open>input_dir.glob("*.pdf")\<close>: the
  entries of the directory itself whose name ends in \<open>.pdf\<close>.
\<close>

definition listdir :: "filesystem \<Rightarrow> path \<Rightarrow> path list" where
  "listdir files d = filter (\<lambda>p. p \<noteq> [] \<and> parent p = d) (remdups (map fst files))"

definition fnmatch_pdf :: "string \<Rightarrow> bool" where
  "fnmatch_pdf n = suffix ''.pdf'' n"

definition glob_pdf :: "filesystem \<Rightarrow> path \<Rightarrow> path list" where
  "glob_pdf files d = filter (\<lambda>p. fnmatch_pdf (name_of p)) (listdir files d)"

text \<open>
  The loop of \<open>main\<close> over \<open>pdf_files\<close>, with \<open>exit_code\<close> as accumulator. Only
  \<open>PdfConversionError\<close> is caught; any other exception, such as an \<open>OSError\<close> of
  \<open>output_path.exists()\<close>, leaves the loop and \<open>main\<close>.
\<close>

fun convert_all :: "path list \<Rightarrow> path \<Rightarrow> int \<Rightarrow> world \<Rightarrow> (exn + int) \<times> world" where
  "convert_all [] output_dir exit_code w = (Inr exit_code, w)"
| "convert_all (pdf_file # rest) output_dir exit_code w =
     (case pdf_to_pngs pdf_file output_dir False w of
        (Inr paths, w') \<Rightarrow> convert_all rest output_dir exit_code w'
      | (Inl (PdfConversionError msg c), w') \<Rightarrow>
          convert_all rest output_dir 1 (logger_log ERROR msg w')
      | (Inl e, w') \<Rightarrow> (Inl e, w'))"

definition main :: "cli_arg list \<Rightarrow> world \<Rightarrow> (exn + int) \<times> world" where
  "main args w =
     (case parse_args args w of
        Inl e \<Rightarrow> (Inl e, w)
      | Inr parsed \<Rightarrow>
          (case configure_logging (ns_output_dir parsed) (ns_log_level parsed)
                  (ns_log_to_console parsed) w of
             (Inl e, w1) \<Rightarrow> (Inl e, w1)
           | (Inr u, w1) \<Rightarrow>
               (case is_dir w1 (ns_input_dir parsed) of
                  Inl e \<Rightarrow> (Inl (OSError e), w1)
                | Inr d \<Rightarrow>
                    if \<not> d
                    then (Inr 1,
                          logger_log ERROR
                            (''Input directory does not exist: ''
                               @ path_str (ns_input_dir parsed)) w1)
                    else
                      (case mkdir_parents w1 (ns_output_dir parsed) of
                         Inl e \<Rightarrow>
                           (Inr 1,
                            logger_log ERROR
                              (''Cannot create output directory ''
                                 @ path_str (ns_output_dir parsed) @ '': '' @ os_error_str e) w1)
                       | Inr w2 \<Rightarrow>
                           if \<not> os_access_W w2 (ns_output_dir parsed)
                           then (Inr 1,
                                 logger_log ERROR
                                   (''Output directory is not writable: ''
                                      @ path_str (ns_output_dir parsed)) w2)
                           else
                             (let pdf_files = glob_pdf (fs w2) (ns_input_dir parsed) in
                              if pdf_files = []
                              then (Inr 0,
                                    logger_log WARNING
                                      (''No PDF files found in ''
                                         @ path_str (ns_input_dir parsed)) w2)
                              else convert_all pdf_files (ns_output_dir parsed) 0 w2)))))"

section \<open>The batch as the specification words it\<close>

text \<open>
  The specification's account of the loop, to be compared with \<open>convert_all\<close>: every
  discovered document is converted with \<open>overwrite\<close> off, in discovery order; the error of
  a failed document is logged and the next document follows. \<open>batch_spec\<close> returns
  the outcome of each document and the world after the last one.
\<close>

fun batch_spec ::
  "path list \<Rightarrow> path \<Rightarrow> world \<Rightarrow> (exn + path list) list \<times> world" where
  "batch_spec [] output_dir w = ([], w)"
| "batch_spec (pdf_file # rest) output_dir w =
     (case pdf_to_pngs pdf_file output_dir False w of
        (Inr paths, w') \<Rightarrow>
          (case batch_spec rest output_dir w' of
             (rs, w_end) \<Rightarrow> (Inr paths # rs, w_end))
      | (Inl e, w') \<Rightarrow>
          (case batch_spec rest output_dir
                  (logger_log ERROR (case e of PdfConversionError msg c \<Rightarrow> msg | _ \<Rightarrow> []) w') of
             (rs, w_end) \<Rightarrow> (Inl e # rs, w_end)))"

section \<open>Observing page files\<close>

text \<open>
  The page images a file system holds, in directory order, and the test that a path
  is a page image.
\<close>

definition png_files :: "filesystem \<Rightarrow> (path \<times> node) list" where
  "png_files files =
     filter (\<lambda>(p, n). case n of File (Png img) \<Rightarrow> True | _ \<Rightarrow> False) files"

definition is_png_file :: "filesystem \<Rightarrow> path \<Rightarrow> bool" where
  "is_png_file files p = (case stat files p of Some (File (Png img)) \<Rightarrow> True | _ \<Rightarrow> False)"

section \<open>A sample run\<close>

text \<open>
  A small world used to run the definitions: the input directory \<open>/data\<close> holds
  \<open>report.pdf\<close>, which decodes to two pages, and \<open>notes.pdf\<close>, which the renderer
  rejects; the output directory \<open>/out\<close> exists and is empty.
\<close>

definition report_pdf :: path where
  "report_pdf = [''data'', ''report.pdf'']"

definition notes_pdf :: path where
  "notes_pdf = [''data'', ''notes.pdf'']"

definition sample_world :: world where
  "sample_world =
     \<lparr>fs = [([], Dir True), ([''data''], Dir True), (report_pdf, File (Bytes [])),
            (notes_pdf, File (Bytes [])), ([''out''], Dir True)],
      io_fault = (\<lambda>p. None),
      convert_from_path =
        (\<lambda>p. if p = report_pdf then Inr [Image 1, Image 2]
             else Inl (PDFSyntaxError ''Syntax Error'')),
      script_file = [''app'', ''src'', ''main.py''],
      root_level = 30,
      root_handlers = [],
      logged = []\<rparr>"

text \<open>The same world with a device that refuses the second page of the report.\<close>

definition faulty_world :: world where
  "faulty_world =
     sample_world
       \<lparr>io_fault :=
          (\<lambda>p. if p = [''out'', ''report_page_2.png''] then Some WriteRefused else None)\<rparr>"

text \<open>A world in which the path of the output directory is taken by a regular file.\<close>

definition blocked_world :: world where
  "blocked_world =
     sample_world\<lparr>fs := [([], Dir True), ([''data''], Dir True), ([''out''], File (Bytes []))]\<rparr>"


text \<open>
  A world whose input directory holds, before the report, a document with a name of 254
  characters. The name of its first page has 261 characters, more than the 255 that a
  file name may have, and every path with such a name is refused as unresolvable.
\<close>

definition long_pdf :: path where
  "long_pdf = [''data'', replicate 250 CHR ''x'' @ ''.pdf'']"

definition long_name_world :: world where
  "long_name_world =
     sample_world
       \<lparr>fs := [([], Dir True), ([''data''], Dir True), (long_pdf, File (Bytes [])),
               (report_pdf, File (Bytes [])), ([''out''], Dir True)],
         io_fault :=
           (\<lambda>p. if list_ex (\<lambda>c. 255 < length c) p
                then Some (Unresolvable NameTooLongError) else None),
         convert_from_path :=
           (\<lambda>p. if p = long_pdf then Inr [Image 3]
                else if p = report_pdf then Inr [Image 1, Image 2]
                else Inl (PDFSyntaxError ''Syntax Error''))\<rparr>"

section \<open>What creating a directory adds\<close>

text \<open>
  \<open>dirs_added files p files'\<close>: \<open>files'\<close> is \<open>files\<close> followed by new writable
  directories, each of them \<open>p\<close> or an ancestor of \<open>p\<close>.
\<close>

definition dirs_added :: "filesystem \<Rightarrow> path \<Rightarrow> filesystem \<Rightarrow> bool" where
  "dirs_added files p files' \<longleftrightarrow>
     (\<exists>ds. files' = files @ map (\<lambda>q. (q, Dir True)) ds
         \<and> (\<forall>q \<in> set ds. prefix q p) \<and> distinct ds \<and> set ds \<inter> fst ` set files = {})"

section \<open>Properties of the converter\<close>

lemma logger_log_fields [simp]:
  "fs (logger_log lv msg w) = fs w"
  "io_fault (logger_log lv msg w) = io_fault w"
  "convert_from_path (logger_log lv msg w) = convert_from_path w"
  "script_file (logger_log lv msg w) = script_file w"
  "root_level (logger_log lv msg w) = root_level w"
  "root_handlers (logger_log lv msg w) = root_handlers w"
  "logged (logger_log lv msg w) = logged w @ [(lv, msg)]"
  by (simp_all add: logger_log_def)

subsection \<open>Page names\<close>

lemma update_fresh: "k \<notin> fst ` set al \<Longrightarrow> AList.update k v al = al @ [(k, v)]"
  by (induction al) auto

lemma digit_inj: "a < 10 \<Longrightarrow> b < 10 \<Longrightarrow> digit a = digit b \<Longrightarrow> a = b"
proof -
  assume a: "a < 10" and b: "b < 10" and e: "digit a = digit b"
  from e have "(of_char (char_of (48 + a)) :: nat) = of_char (char_of (48 + b))"
    by (simp add: digit_def)
  with a b show "a = b" by simp
qed

lemma dec_small: "n < 10 \<Longrightarrow> dec n = [digit n]"
  by (subst dec.simps) simp

lemma dec_big: "\<not> n < 10 \<Longrightarrow> dec n = dec (n div 10) @ [digit (n mod 10)]"
  by (subst dec.simps) simp

lemma dec_nonempty: "dec n \<noteq> []" "[] \<noteq> dec n"
  by (cases "n < 10"; simp add: dec_small dec_big)+

lemma dec_inj: "dec n = dec m \<Longrightarrow> n = m"
proof (induction n arbitrary: m rule: dec.induct)
  case (1 n)
  show ?case
  proof (cases "n < 10")
    case True
    with "1.prems" show ?thesis
      by (cases "m < 10") (auto simp: dec_small dec_big dec_nonempty dest: digit_inj)
  next
    case False
    show ?thesis
    proof (cases "m < 10")
      case True
      with False "1.prems" show ?thesis
        by (simp add: dec_small dec_big dec_nonempty)
    next
      case mf: False
      from False mf "1.prems"
      have "dec (n div 10) = dec (m div 10)" and "digit (n mod 10) = digit (m mod 10)"
        by (simp_all add: dec_big)
      then have "n div 10 = m div 10" and "n mod 10 = m mod 10"
        using "1.IH"[OF False] by (auto intro: digit_inj)
      then show ?thesis by (metis div_mult_mod_eq)
    qed
  qed
qed

lemma page_path_inj: "page_path out pdf i = page_path out pdf j \<Longrightarrow> i = j"
  by (auto simp: page_path_def joinpath_def page_name_def dest: dec_inj)

subsection \<open>The page loop\<close>

lemma stat_update: "stat (AList.update k v files) q = (if q = k then Some v else stat files q)"
  by (simp add: stat_def update_conv')

lemma stat_None_iff: "stat files p = None \<longleftrightarrow> p \<notin> fst ` set files"
  by (simp add: stat_def map_of_eq_None_iff)

lemma lookup_error_log [simp]: "lookup_error (logger_log lv msg w) p = lookup_error w p"
  by (simp add: lookup_error_def)

lemma path_exists_same:
  "fs v = fs w \<Longrightarrow> io_fault v = io_fault w \<Longrightarrow> path_exists v p = path_exists w p"
  by (simp add: path_exists_def lookup_error_def split: option.splits fault.splits)

lemma path_exists_True:
  "path_exists w p = Inr True \<longleftrightarrow> lookup_error w p = None \<and> p \<in> fst ` set (fs w)"
  by (auto simp: path_exists_def stat_None_iff split: option.splits)

lemma path_exists_fresh:
  "lookup_error w p = None \<Longrightarrow> p \<notin> fst ` set (fs w) \<Longrightarrow> path_exists w p = Inr False"
  by (simp add: path_exists_def stat_None_iff)

lemma img_save_Inr:
  "img_save img p w = Inr w' \<Longrightarrow> w' = w\<lparr>fs := AList.update p (File (Png img)) (fs w)\<rparr>"
  by (auto simp: img_save_def split: option.splits)

lemma img_save_resolves: "img_save img p w = Inr w' \<Longrightarrow> lookup_error w p = None"
  by (auto simp: img_save_def open_check_def split: option.splits)

lemma img_save_same:
  "fs v = fs w \<Longrightarrow> io_fault v = io_fault w \<Longrightarrow> img_save img p v = Inl e \<longleftrightarrow> img_save img p w = Inl e"
  by (auto simp: img_save_def open_check_def lookup_error_def split: option.splits)

text \<open>One turn of the loop: the lookup raises, the page is skipped, the save fails, or
  the page is saved.\<close>

lemma save_pages_step:
  assumes "save_pages ((i, img) # rest) pdf out ov acc w = (r, w')"
  obtains
    (raise) e where "path_exists w (page_path out pdf i) = Inl e"
      and "r = Inl (OSError e)" and "w' = w"
  | (skip) "path_exists w (page_path out pdf i) = Inr True" and "\<not> ov"
      and "save_pages rest pdf out ov acc
             (logger_log INFO (''Skipping existing file: '' @ path_str (page_path out pdf i)) w)
           = (r, w')"
  | (fail) present e where "path_exists w (page_path out pdf i) = Inr present"
      and "\<not> (present \<and> \<not> ov)" and "img_save img (page_path out pdf i) w = Inl e"
      and "r = Inl (PdfConversionError (''Failed to save '' @ path_str (page_path out pdf i))
                      (SaveFailure e))"
      and "w' = logger_log ERROR
             (''Failed to save '' @ path_str (page_path out pdf i) @ '': '' @ os_error_str e) w"
  | (save) present w2 where "path_exists w (page_path out pdf i) = Inr present"
      and "\<not> (present \<and> \<not> ov)" and "img_save img (page_path out pdf i) w = Inr w2"
      and "save_pages rest pdf out ov (acc @ [page_path out pdf i])
             (logger_log INFO (''Saved '' @ path_str (page_path out pdf i)) w2) = (r, w')"
proof (cases "path_exists w (page_path out pdf i)")
  case (Inl e)
  with assms have "r = Inl (OSError e)" and "w' = w" by (simp_all add: Let_def)
  with Inl show ?thesis by (rule raise)
next
  case (Inr present)
  show ?thesis
  proof (cases "present \<and> \<not> ov")
    case True
    with Inr assms show ?thesis by (intro skip) (simp_all add: Let_def)
  next
    case False
    show ?thesis
    proof (cases "img_save img (page_path out pdf i) w")
      case e: (Inl e)
      with Inr False assms show ?thesis by (intro fail [of present e]) (auto simp: Let_def)
    next
      case w2: (Inr w2)
      with Inr False assms show ?thesis by (intro save [of present w2]) (auto simp: Let_def)
    qed
  qed
qed

text \<open>The loop leaves the collaborators and the logging configuration alone.\<close>

lemma save_pages_env:
  "save_pages xs pdf out ov acc w = (r, w') \<Longrightarrow>
     io_fault w' = io_fault w \<and> convert_from_path w' = convert_from_path w \<and>
     script_file w' = script_file w \<and> root_level w' = root_level w \<and>
     root_handlers w' = root_handlers w"
proof (induction xs arbitrary: acc w)
  case Nil
  then show ?case by simp
next
  case (Cons x xs)
  obtain i img where x: "x = (i, img)" by (cases x)
  from Cons.prems [unfolded x] show ?case
  proof (cases rule: save_pages_step)
    case (raise e)
    then show ?thesis by simp
  next
    case skip
    from Cons.IH [OF skip(3)] show ?thesis by simp
  next
    case (fail present e)
    then show ?thesis by simp
  next
    case (save present w2)
    from Cons.IH [OF save(4)] img_save_Inr [OF save(3)] show ?thesis by simp
  qed
qed

lemma save_pages_keys:
  "save_pages xs pdf out ov acc w = (r, w') \<Longrightarrow> q \<in> fst ` set (fs w) \<Longrightarrow> q \<in> fst ` set (fs w')"
proof (induction xs arbitrary: acc w)
  case Nil
  then show ?case by simp
next
  case (Cons x xs)
  obtain i img where x: "x = (i, img)" by (cases x)
  from Cons.prems(1) [unfolded x] show ?case
  proof (cases rule: save_pages_step)
    case (raise e)
    with Cons.prems(2) show ?thesis by simp
  next
    case skip
    from Cons.IH [OF skip(3)] Cons.prems(2) show ?thesis by simp
  next
    case (fail present e)
    with Cons.prems(2) show ?thesis by simp
  next
    case (save present w2)
    have "q \<in> fst ` set (fs w2)"
      using img_save_Inr [OF save(3)] Cons.prems(2) by (simp add: dom_update)
    with Cons.IH [OF save(4)] show ?thesis by simp
  qed
qed

text \<open>
  Running the loop again, with \<open>overwrite\<close> off, from the file system the first run
  left: every page the first run reached is skipped, and a page whose lookup or save
  failed fails again.
\<close>

lemma save_pages_again:
  "save_pages xs pdf out False acc w = (r, w1) \<Longrightarrow> fs v = fs w1 \<Longrightarrow> io_fault v = io_fault w \<Longrightarrow>
   \<exists>v'. save_pages xs pdf out False acc' v = ((case r of Inr ps \<Rightarrow> Inr acc' | Inl e \<Rightarrow> Inl e), v')
        \<and> fs v' = fs w1"
proof (induction xs arbitrary: acc w v)
  case Nil
  then show ?case by auto
next
  case (Cons x xs)
  obtain i img where x: "x = (i, img)" by (cases x)
  let ?p = "page_path out pdf i"
  let ?skip = "\<lambda>u. logger_log INFO (''Skipping existing file: '' @ path_str ?p) u"
  have le: "lookup_error v ?p = lookup_error w ?p"
    using Cons.prems(3) by (simp add: lookup_error_def)
  from Cons.prems(1) [unfolded x] show ?case
  proof (cases rule: save_pages_step)
    case (raise e)
    with Cons.prems(2,3) path_exists_same [of v w ?p] have "path_exists v ?p = Inl e"
      by simp
    with raise x Cons.prems(2) show ?thesis by (simp add: Let_def)
  next
    case skip
    from skip(1) have "lookup_error w ?p = None" and "?p \<in> fst ` set (fs w)"
      by (simp_all add: path_exists_True)
    with save_pages_keys [OF skip(3), of ?p] le Cons.prems(2)
    have ex: "path_exists v ?p = Inr True" by (simp add: path_exists_True)
    from Cons.IH [OF skip(3), of "?skip v"] Cons.prems(2,3)
    obtain v' where "save_pages xs pdf out False acc' (?skip v) =
        ((case r of Inr ps \<Rightarrow> Inr acc' | Inl e \<Rightarrow> Inl e), v')" "fs v' = fs w1"
      by auto
    with ex x show ?thesis by (simp add: Let_def)
  next
    case (fail present e)
    from fail(5) Cons.prems(2) have fv: "fs v = fs w" by simp
    with Cons.prems(3) fail(1) path_exists_same [of v w ?p]
    have "path_exists v ?p = Inr present" by simp
    moreover from fv Cons.prems(3) fail(3) img_save_same [of v w img ?p e]
    have "img_save img ?p v = Inl e" by simp
    ultimately show ?thesis using fail(2,4,5) x fv by (simp add: Let_def)
  next
    case (save present w2)
    let ?w2 = "logger_log INFO (''Saved '' @ path_str ?p) w2"
    have "?p \<in> fst ` set (fs ?w2)"
      using img_save_Inr [OF save(3)] by (simp add: dom_update)
    from save_pages_keys [OF save(4) this] img_save_resolves [OF save(3)] le Cons.prems(2)
    have ex: "path_exists v ?p = Inr True" by (simp add: path_exists_True)
    have "io_fault ?w2 = io_fault w" using img_save_Inr [OF save(3)] by simp
    with Cons.IH [OF save(4), of "?skip v"] Cons.prems(2,3)
    obtain v' where "save_pages xs pdf out False acc' (?skip v) =
        ((case r of Inr ps \<Rightarrow> Inr acc' | Inl e \<Rightarrow> Inl e), v')" "fs v' = fs w1"
      by auto
    with ex x show ?thesis by (simp add: Let_def)
  qed
qed

lemma pdf_to_pngs_env:
  "pdf_to_pngs pdf out ov w = (r, w') \<Longrightarrow>
     io_fault w' = io_fault w \<and> convert_from_path w' = convert_from_path w"
  by (auto simp: pdf_to_pngs_def split: sum.splits dest: save_pages_env)

subsection \<open>Decode failure\<close>

text \<open>
  C7. When the renderer fails on a document, \<open>pdf_to_pngs\<close> raises
  \<open>PdfConversionError\<close> with the renderer's error as its cause, after logging an error
  record that holds the document path and the renderer's message; the file system is
  left as it was, so no output file is written.
\<close>

theorem pdf_to_pngs_decode_failure:
  assumes "convert_from_path w pdf_path = Inl e"
  shows "pdf_to_pngs pdf_path output_dir overwrite w =
           (Inl (PdfConversionError (''PDF conversion failed for '' @ path_str pdf_path)
                   (DecodeFailure e)),
            w\<lparr>logged := logged w @
                 [(ERROR, ''Failed to convert '' @ path_str pdf_path @ '': ''
                            @ decode_error_str e)]\<rparr>)
         \<and> fs (snd (pdf_to_pngs pdf_path output_dir overwrite w)) = fs w"
  using assms by (simp add: pdf_to_pngs_def logger_log_def)

theorem pdf_to_pngs_decode_failure_witness:
  "convert_from_path sample_world notes_pdf = Inl (PDFSyntaxError ''Syntax Error'')
   \<and> pdf_to_pngs notes_pdf [''out''] False sample_world =
       (Inl (PdfConversionError ''PDF conversion failed for /data/notes.pdf''
               (DecodeFailure (PDFSyntaxError ''Syntax Error''))),
        sample_world\<lparr>logged := [(ERROR, ''Failed to convert /data/notes.pdf: Syntax Error'')]\<rparr>)
   \<and> fs (snd (pdf_to_pngs notes_pdf [''out''] False sample_world)) = fs sample_world"
proof -
  have h: "convert_from_path sample_world notes_pdf = Inl (PDFSyntaxError ''Syntax Error'')"
    by (simp add: sample_world_def notes_pdf_def report_pdf_def)
  have l: "logged sample_world = []"
    by (simp add: sample_world_def)
  have p: "path_str notes_pdf = ''/data/notes.pdf''"
    by (simp add: path_str_def notes_pdf_def)
  from pdf_to_pngs_decode_failure [OF h, of "[''out'']" False] h l p
  show ?thesis by simp
qed

subsection \<open>Running the converter twice\<close>

text \<open>
  C2. When \<open>pdf_to_pngs\<close> is run twice in a row on the same document and output
  directory with \<open>overwrite\<close> off, the second run starting in the world the first one
  left, the second run leaves the file system exactly as the first run left it (it
  writes nothing), and it returns the empty list whenever the first run returned; when
  the first run raised, the second raises the same error.
\<close>

theorem pdf_to_pngs_twice:
  "(let (r1, w1) = pdf_to_pngs pdf_path output_dir False w;
        (r2, w2) = pdf_to_pngs pdf_path output_dir False w1
    in fs w2 = fs w1 \<and> (case r1 of Inr paths \<Rightarrow> r2 = Inr [] | Inl e \<Rightarrow> r2 = Inl e))"
proof -
  obtain r1 w1 where run1: "pdf_to_pngs pdf_path output_dir False w = (r1, w1)"
    by (cases "pdf_to_pngs pdf_path output_dir False w")
  obtain r2 w2 where run2: "pdf_to_pngs pdf_path output_dir False w1 = (r2, w2)"
    by (cases "pdf_to_pngs pdf_path output_dir False w1")
  have "fs w2 = fs w1 \<and> (case r1 of Inr paths \<Rightarrow> r2 = Inr [] | Inl e \<Rightarrow> r2 = Inl e)"
  proof (cases "convert_from_path w pdf_path")
    case (Inl e)
    moreover from pdf_to_pngs_env [OF run1] Inl
    have "convert_from_path w1 pdf_path = Inl e" by simp
    ultimately show ?thesis using run1 run2 by (auto simp: pdf_to_pngs_def)
  next
    case (Inr images)
    from pdf_to_pngs_env [OF run1] Inr
    have c1: "convert_from_path w1 pdf_path = Inr images"
      and f1: "io_fault w1 = io_fault w" by simp_all
    from Inr run1
    have run: "save_pages (List.enumerate 1 images) pdf_path output_dir False [] w = (r1, w1)"
      by (simp add: pdf_to_pngs_def)
    from save_pages_again [OF run, of w1 "[]"] f1
    obtain v' where
      "save_pages (List.enumerate 1 images) pdf_path output_dir False [] w1 =
         ((case r1 of Inr ps \<Rightarrow> Inr [] | Inl e \<Rightarrow> Inl e), v')"
      and "fs v' = fs w1"
      by auto
    with c1 run2 show ?thesis by (auto simp: pdf_to_pngs_def split: sum.splits)
  qed
  with run1 run2 show ?thesis by simp
qed

subsection \<open>Conversion into an empty directory\<close>

lemma parent_page_path: "parent (page_path out pdf i) = out" "page_path out pdf i \<noteq> []"
  by (simp_all add: page_path_def joinpath_def parent_def)

lemma stat_append_left: "stat files q = Some n \<Longrightarrow> stat (files @ ys) q = Some n"
  by (simp add: stat_def map_add_def split: option.splits)

lemma save_pages_fresh:
  assumes "distinct (map fst xs)"
    and "\<forall>i \<in> fst ` set xs. page_path out pdf i \<notin> fst ` set (fs w)
            \<and> io_fault w (page_path out pdf i) = None"
    and "stat (fs w) out = Some (Dir True)"
  shows "save_pages xs pdf out ov acc w =
     (Inr (acc @ map (\<lambda>(i, img). page_path out pdf i) xs),
      w\<lparr>fs := fs w @ map (\<lambda>(i, img). (page_path out pdf i, File (Png img))) xs,
        logged := logged w @
          map (\<lambda>(i, img). (INFO, ''Saved '' @ path_str (page_path out pdf i))) xs\<rparr>)"
  using assms
proof (induction xs arbitrary: acc w)
  case Nil
  then show ?case by simp
next
  case (Cons x xs)
  obtain i img where x: "x = (i, img)" by (cases x)
  let ?p = "page_path out pdf i"
  from Cons.prems x have fresh: "?p \<notin> fst ` set (fs w)" and nofault: "io_fault w ?p = None"
    by auto
  from nofault have le: "lookup_error w ?p = None" by (simp add: lookup_error_def)
  from fresh le have ne: "path_exists w ?p = Inr False" by (rule path_exists_fresh [rotated])
  from fresh have none: "stat (fs w) ?p = None" by (simp add: stat_None_iff)
  have sv: "img_save img ?p w = Inr (w\<lparr>fs := fs w @ [(?p, File (Png img))]\<rparr>)"
    using none nofault le Cons.prems(3) fresh
    by (simp add: img_save_def open_check_def create_check_def parent_page_path update_fresh)
  let ?w = "logger_log INFO (''Saved '' @ path_str ?p) (w\<lparr>fs := fs w @ [(?p, File (Png img))]\<rparr>)"
  have d: "distinct (map fst xs)" using Cons.prems(1) by simp
  have f: "\<forall>j \<in> fst ` set xs. page_path out pdf j \<notin> fst ` set (fs ?w)
            \<and> io_fault ?w (page_path out pdf j) = None"
  proof
    fix j assume j: "j \<in> fst ` set xs"
    with Cons.prems(1) x have "j \<noteq> i" by auto
    then have "page_path out pdf j \<noteq> ?p" by (auto dest: page_path_inj)
    with j Cons.prems(2) show "page_path out pdf j \<notin> fst ` set (fs ?w)
            \<and> io_fault ?w (page_path out pdf j) = None" by auto
  qed
  have s: "stat (fs ?w) out = Some (Dir True)"
    using Cons.prems(3) by (simp add: stat_append_left)
  from Cons.IH[OF d f s, of "acc @ [?p]"] sv ne x show ?case
    by (simp add: Let_def logger_log_def)
qed

lemma map_case_fst: "map (\<lambda>(i, img). f i) xs = map f (map fst xs)"
  by (induction xs) auto

lemma listdir_empty_fresh:
  "listdir files d = [] \<Longrightarrow> parent p = d \<Longrightarrow> p \<noteq> [] \<Longrightarrow> p \<notin> fst ` set files"
  by (auto simp: listdir_def filter_empty_conv)

text \<open>
  C1. When a document decodes to \<open>N\<close> pages, the output directory exists, is writable
  and holds no entry, and the system refuses none of the page paths, \<open>pdf_to_pngs\<close>
  (with either value of \<open>overwrite\<close>) returns the paths \<open>{stem}_page_1.png\<close> to
  \<open>{stem}_page_N.png\<close> of the output directory, in page order; these \<open>N\<close> paths are
  distinct, and the file system afterwards is the one before followed by exactly these
  \<open>N\<close> files, page \<open>i\<close> holding the \<open>i\<close>-th image.
\<close>

theorem pdf_to_pngs_empty_output_dir:
  assumes "convert_from_path w pdf_path = Inr images"
    and "stat (fs w) output_dir = Some (Dir True)"
    and "listdir (fs w) output_dir = []"
    and "\<forall>i \<in> {1..length images}. io_fault w (page_path output_dir pdf_path i) = None"
  shows "pdf_to_pngs pdf_path output_dir overwrite w =
           (Inr (map (page_path output_dir pdf_path) [1..<Suc (length images)]),
            w\<lparr>fs := fs w @
                 map (\<lambda>(i, img). (page_path output_dir pdf_path i, File (Png img)))
                   (List.enumerate 1 images),
               logged := logged w @
                 map (\<lambda>(i, img). (INFO, ''Saved '' @ path_str (page_path output_dir pdf_path i)))
                   (List.enumerate 1 images)\<rparr>)
         \<and> distinct (map (page_path output_dir pdf_path) [1..<Suc (length images)])"
proof -
  let ?xs = "List.enumerate 1 images"
  have fsts: "map fst ?xs = [1..<Suc (length images)]" by simp
  have d: "distinct (map fst ?xs)" unfolding fsts by simp
  have "fst ` set ?xs = set (map fst ?xs)" by (simp only: set_map)
  also have "\<dots> = set [1..<Suc (length images)]" by (simp only: fsts)
  also have "\<dots> = {1..length images}"
    by (simp only: set_upt atLeastLessThanSuc_atLeastAtMost)
  finally have ix: "fst ` set ?xs = {1..length images}" .
  have f: "\<forall>i \<in> fst ` set ?xs. page_path output_dir pdf_path i \<notin> fst ` set (fs w)
            \<and> io_fault w (page_path output_dir pdf_path i) = None"
  proof
    fix i assume "i \<in> fst ` set ?xs"
    with ix assms(4) have "io_fault w (page_path output_dir pdf_path i) = None" by simp
    moreover have "page_path output_dir pdf_path i \<notin> fst ` set (fs w)"
      by (rule listdir_empty_fresh [OF assms(3)]) (simp_all add: parent_page_path)
    ultimately show "page_path output_dir pdf_path i \<notin> fst ` set (fs w)
            \<and> io_fault w (page_path output_dir pdf_path i) = None" by simp
  qed
  have "map (\<lambda>(i, img). page_path output_dir pdf_path i) ?xs =
           map (page_path output_dir pdf_path) (map fst ?xs)"
    by (rule map_case_fst)
  then have m: "map (\<lambda>(i, img). page_path output_dir pdf_path i) ?xs =
           map (page_path output_dir pdf_path) [1..<Suc (length images)]"
    unfolding fsts .
  have "distinct (map (page_path output_dir pdf_path) [1..<Suc (length images)])"
    by (auto simp: distinct_map inj_on_def dest: page_path_inj)
  with save_pages_fresh [OF d f assms(2), where ov = overwrite and acc = "[]"] assms(1) m
  show ?thesis by (simp add: pdf_to_pngs_def)
qed

lemma stem_report: "stem report_pdf = ''report''"
  by (simp add: stem_def name_of_def rfind_def report_pdf_def)

lemma dec_1: "dec 1 = ''1''" "dec (Suc 0) = ''1''"
  by code_simp+

lemma dec_2: "dec 2 = ''2''"
  by code_simp

lemma report_pages:
  "page_path [''out''] report_pdf 1 = [''out'', ''report_page_1.png'']"
  "page_path [''out''] report_pdf (Suc 0) = [''out'', ''report_page_1.png'']"
  "page_path [''out''] report_pdf 2 = [''out'', ''report_page_2.png'']"
  by (simp_all add: page_path_def page_name_def joinpath_def stem_report dec_1 dec_2)

theorem pdf_to_pngs_empty_output_dir_witness:
  "convert_from_path sample_world report_pdf = Inr [Image 1, Image 2]
   \<and> stat (fs sample_world) [''out''] = Some (Dir True)
   \<and> listdir (fs sample_world) [''out''] = []
   \<and> io_fault sample_world [''out'', ''report_page_1.png''] = None
   \<and> io_fault sample_world [''out'', ''report_page_2.png''] = None
   \<and> pdf_to_pngs report_pdf [''out''] False sample_world =
       (Inr [[''out'', ''report_page_1.png''], [''out'', ''report_page_2.png'']],
        sample_world
          \<lparr>fs := fs sample_world @
                   [([''out'', ''report_page_1.png''], File (Png (Image 1))),
                    ([''out'', ''report_page_2.png''], File (Png (Image 2)))],
            logged := [(INFO, ''Saved /out/report_page_1.png''),
                       (INFO, ''Saved /out/report_page_2.png'')]\<rparr>)"
proof -
  have h1: "convert_from_path sample_world report_pdf = Inr [Image 1, Image 2]"
    by (simp add: sample_world_def)
  have h2: "stat (fs sample_world) [''out''] = Some (Dir True)"
    by (simp add: sample_world_def stat_def report_pdf_def notes_pdf_def)
  have h3: "listdir (fs sample_world) [''out''] = []"
    by (simp add: sample_world_def listdir_def parent_def report_pdf_def notes_pdf_def)
  have f: "\<And>p. io_fault sample_world p = None" by (simp add: sample_world_def)
  have h4: "\<forall>i \<in> {1..length [Image 1, Image 2]}.
              io_fault sample_world (page_path [''out''] report_pdf i) = None"
    using f by simp
  have l: "logged sample_world = []" by (simp add: sample_world_def)
  have u: "[1..<Suc (length [Image 1, Image 2])] = [1, 2]"
    by (simp add: upt_rec)
  have e: "List.enumerate 1 [Image 1, Image 2] = [(1, Image 1), (2, Image 2)]"
    by (simp add: enumerate_eq_zip upt_rec)
  from pdf_to_pngs_empty_output_dir [OF h1 h2 h3 h4, of False]
  show ?thesis
    unfolding u e using h1 h2 h3 f l by (simp add: report_pages path_str_def)
qed

subsection \<open>Failure while saving a page\<close>

lemma save_pages_append:
  "save_pages (xs @ ys) pdf out ov acc w =
     (case save_pages xs pdf out ov acc w of
        (Inr acc', w') \<Rightarrow> save_pages ys pdf out ov acc' w'
      | (Inl e, w') \<Rightarrow> (Inl e, w'))"
proof (induction xs arbitrary: acc w)
  case Nil
  show ?case by simp
next
  case (Cons x xs)
  obtain i img where x: "x = (i, img)" by (cases x)
  let ?p = "page_path out pdf i"
  show ?case
  proof (cases "path_exists w ?p")
    case (Inl e)
    then show ?thesis unfolding x by (simp add: Let_def)
  next
    case (Inr present)
    show ?thesis
    proof (cases "present \<and> \<not> ov")
      case True
      with Inr Cons.IH [of acc "logger_log INFO (''Skipping existing file: '' @ path_str ?p) w"]
      show ?thesis unfolding x by (simp add: Let_def)
    next
      case False
      show ?thesis
      proof (cases "img_save img ?p w")
        case (Inl e)
        with Inr False show ?thesis unfolding x by (auto simp: Let_def)
      next
        case w1: (Inr w1)
        with Inr False
          Cons.IH [of "acc @ [?p]" "logger_log INFO (''Saved '' @ path_str ?p) w1"]
        show ?thesis unfolding x by (auto simp: Let_def)
      qed
    qed
  qed
qed

lemma enumerate_snoc:
  "List.enumerate n (pre @ img # post) =
     List.enumerate n pre @ (n + length pre, img) # List.enumerate (Suc (n + length pre)) post"
  by (induction pre arbitrary: n) simp_all

lemma is_png_file_update:
  "is_png_file files q \<Longrightarrow> is_png_file (AList.update p (File (Png img)) files) q"
  by (simp add: is_png_file_def stat_update)

lemma save_pages_png_kept:
  "save_pages xs pdf out ov acc w = (r, w') \<Longrightarrow> is_png_file (fs w) q \<Longrightarrow> is_png_file (fs w') q"
proof (induction xs arbitrary: acc w)
  case Nil
  then show ?case by simp
next
  case (Cons x xs)
  obtain i img where x: "x = (i, img)" by (cases x)
  from Cons.prems(1) [unfolded x] show ?case
  proof (cases rule: save_pages_step)
    case (raise e)
    with Cons.prems(2) show ?thesis by simp
  next
    case skip
    from Cons.IH [OF skip(3)] Cons.prems(2) show ?thesis by simp
  next
    case (fail present e)
    with Cons.prems(2) show ?thesis by simp
  next
    case (save present w2)
    have "is_png_file (fs w2) q"
      using img_save_Inr [OF save(3)] Cons.prems(2) by (simp add: is_png_file_update)
    with Cons.IH [OF save(4)] show ?thesis by simp
  qed
qed

lemma save_pages_written:
  "save_pages xs pdf out ov acc w = (Inr ps, w') \<Longrightarrow>
     \<forall>q \<in> set acc. is_png_file (fs w) q \<Longrightarrow> \<forall>q \<in> set ps. is_png_file (fs w') q"
proof (induction xs arbitrary: acc w)
  case Nil
  then show ?case by simp
next
  case (Cons x xs)
  obtain i img where x: "x = (i, img)" by (cases x)
  let ?p = "page_path out pdf i"
  from Cons.prems(1) [unfolded x] show ?case
  proof (cases rule: save_pages_step)
    case (raise e)
    then show ?thesis by simp
  next
    case skip
    from Cons.IH [OF skip(3)] Cons.prems(2) show ?thesis by simp
  next
    case (fail present e)
    then show ?thesis by simp
  next
    case (save present w2)
    have "\<forall>q \<in> set (acc @ [?p]). is_png_file (fs w2) q"
      using img_save_Inr [OF save(3)] Cons.prems(2)
      by (auto simp: is_png_file_update) (simp add: is_png_file_def stat_update)
    with Cons.IH [OF save(4)] show ?thesis by simp
  qed
qed

text \<open>
  C8. When the pages before page \<open>i\<close> have been processed without error, page \<open>i\<close> is
  not skipped (the lookup of its path answers, and the path is absent or \<open>overwrite\<close> is
  on) and saving it fails with an I/O error \<open>e\<close>, \<open>pdf_to_pngs\<close> raises
  \<open>PdfConversionError\<close> with cause \<open>e\<close> at once: the pages after \<open>i\<close> play no part, the
  file system is the one the earlier iterations left, and every page written by them
  is still a PNG file in it.
\<close>

theorem pdf_to_pngs_save_failure:
  assumes "convert_from_path w pdf_path = Inr (pre @ img # post)"
    and "save_pages (List.enumerate 1 pre) pdf_path output_dir overwrite [] w = (Inr written, w1)"
    and "path_exists w1 (page_path output_dir pdf_path (Suc (length pre))) = Inr present"
    and "\<not> (present \<and> \<not> overwrite)"
    and "img_save img (page_path output_dir pdf_path (Suc (length pre))) w1 = Inl e"
  shows "pdf_to_pngs pdf_path output_dir overwrite w =
           (Inl (PdfConversionError
                   (''Failed to save '' @ path_str (page_path output_dir pdf_path (Suc (length pre))))
                   (SaveFailure e)),
            w1\<lparr>logged := logged w1 @
                 [(ERROR, ''Failed to save ''
                            @ path_str (page_path output_dir pdf_path (Suc (length pre)))
                            @ '': '' @ os_error_str e)]\<rparr>)
         \<and> (\<forall>q \<in> set written. is_png_file (fs w1) q)"
proof -
  from save_pages_written [OF assms(2)] have "\<forall>q \<in> set written. is_png_file (fs w1) q"
    by simp
  moreover have "save_pages (List.enumerate 1 (pre @ img # post)) pdf_path output_dir overwrite [] w
      = (Inl (PdfConversionError
                   (''Failed to save '' @ path_str (page_path output_dir pdf_path (Suc (length pre))))
                   (SaveFailure e)),
            w1\<lparr>logged := logged w1 @
                 [(ERROR, ''Failed to save ''
                            @ path_str (page_path output_dir pdf_path (Suc (length pre)))
                            @ '': '' @ os_error_str e)]\<rparr>)"
    using assms(2,3,4,5)
    by (simp only: enumerate_snoc save_pages_append) (auto simp: Let_def logger_log_def)
  ultimately show ?thesis using assms(1) by (simp add: pdf_to_pngs_def)
qed

theorem pdf_to_pngs_save_failure_witness:
  "pdf_to_pngs report_pdf [''out''] False faulty_world =
     (Inl (PdfConversionError ''Failed to save /out/report_page_2.png'' (SaveFailure DeviceError)),
      faulty_world
        \<lparr>fs := fs faulty_world @ [([''out'', ''report_page_1.png''], File (Png (Image 1)))],
          logged := [(INFO, ''Saved /out/report_page_1.png''),
                     (ERROR, ''Failed to save /out/report_page_2.png: [Errno 28] No space left on device'')]\<rparr>)
   \<and> is_png_file (fs faulty_world @ [([''out'', ''report_page_1.png''], File (Png (Image 1)))])
         [''out'', ''report_page_1.png'']"
proof -
  let ?p1 = "[''out'', ''report_page_1.png'']"
  let ?p2 = "[''out'', ''report_page_2.png'']"
  let ?w1 = "faulty_world\<lparr>fs := fs faulty_world @ [(?p1, File (Png (Image 1)))],
                logged := [(INFO, ''Saved /out/report_page_1.png'')]\<rparr>"
  have files: "fs faulty_world =
      [([], Dir True), ([''data''], Dir True), ([''data'', ''report.pdf''], File (Bytes [])),
       ([''data'', ''notes.pdf''], File (Bytes [])), ([''out''], Dir True)]"
    by (simp add: faulty_world_def sample_world_def report_pdf_def notes_pdf_def)
  have fault: "io_fault faulty_world = (\<lambda>p. if p = ?p2 then Some WriteRefused else None)"
    by (simp add: faulty_world_def)
  have lg: "logged faulty_world = []"
    by (simp add: faulty_world_def sample_world_def)
  have h1: "convert_from_path faulty_world report_pdf = Inr ([Image 1] @ Image 2 # [])"
    by (simp add: faulty_world_def sample_world_def)
  have h2: "save_pages (List.enumerate 1 [Image 1]) report_pdf [''out''] False [] faulty_world
              = (Inr [?p1], ?w1)"
    by (simp add: report_pages path_exists_def lookup_error_def stat_def img_save_def
          open_check_def create_check_def parent_def files fault lg logger_log_def
          path_str_def Let_def)
  have h3: "path_exists ?w1 (page_path [''out''] report_pdf (Suc (length [Image 1]))) = Inr False"
    by (simp add: report_pages path_exists_def lookup_error_def stat_def files fault
          numeral_2_eq_2 [symmetric])
  have h3': "\<not> (False \<and> \<not> False)" by simp
  have h4: "img_save (Image 2) (page_path [''out''] report_pdf (Suc (length [Image 1]))) ?w1
              = Inl DeviceError"
    by (simp add: report_pages img_save_def open_check_def lookup_error_def create_check_def
          parent_def stat_def files fault numeral_2_eq_2 [symmetric])
  from pdf_to_pngs_save_failure [OF h1 h2 h3 h3' h4]
  show ?thesis
    by (simp add: report_pages path_str_def numeral_2_eq_2 [symmetric])
qed

section \<open>Properties of directory creation and logging setup\<close>

lemma lookup_error_fs [simp]: "lookup_error (w\<lparr>fs := files\<rparr>) p = lookup_error w p"
  by (simp add: lookup_error_def)

lemma is_dir_True:
  "is_dir w p = Inr True \<longleftrightarrow> lookup_error w p = None \<and> (\<exists>wr. stat (fs w) p = Some (Dir wr))"
  by (auto simp: is_dir_def split: option.splits node.splits)

lemma is_dir_False:
  "is_dir w p = Inr False \<longleftrightarrow>
     (case lookup_error w p of Some e \<Rightarrow> ignore_error e
      | None \<Rightarrow> \<not> (\<exists>wr. stat (fs w) p = Some (Dir wr)))"
  by (auto simp: is_dir_def split: option.splits node.splits)

lemma stat_append_fresh:
  "k \<notin> fst ` set files \<Longrightarrow>
     stat (files @ [(k, v)]) q = (if q = k then Some v else stat files q)"
  using update_fresh [of k files v] stat_update [of k v files q] by simp

lemma os_mkdir_Inr:
  "os_mkdir w p = Inr w' \<Longrightarrow>
     p \<notin> fst ` set (fs w) \<and> lookup_error w p = None \<and> w' = w\<lparr>fs := fs w @ [(p, Dir True)]\<rparr>"
  by (auto simp: os_mkdir_def stat_None_iff update_fresh split: option.splits)

lemma os_mkdir_exists: "is_dir w p = Inr True \<Longrightarrow> os_mkdir w p = Inl FileExistsError"
  by (auto simp: os_mkdir_def is_dir_True)

lemma mkdir_recover_Inr: "mkdir_recover w p e = Inr w' \<Longrightarrow> w' = w \<and> is_dir w p = Inr True"
  by (auto simp: mkdir_recover_def split: sum.splits if_splits)

lemma dirs_added_refl: "dirs_added files p files"
  unfolding dirs_added_def by (rule exI [of _ "[]"]) simp

lemma dirs_added_one: "p \<notin> fst ` set files \<Longrightarrow> dirs_added files p (files @ [(p, Dir True)])"
  unfolding dirs_added_def by (rule exI [of _ "[p]"]) simp

lemma dirs_added_step:
  assumes "dirs_added files (parent p) files'" and "p \<notin> fst ` set files'"
  shows "dirs_added files p (files' @ [(p, Dir True)])"
proof -
  from assms(1) obtain ds where ds: "files' = files @ map (\<lambda>q. (q, Dir True)) ds"
    "\<forall>q \<in> set ds. prefix q (parent p)" "distinct ds" "set ds \<inter> fst ` set files = {}"
    unfolding dirs_added_def by blast
  have pp: "prefix (parent p) p" by (simp add: parent_def prefixeq_butlast)
  have "files' @ [(p, Dir True)] = files @ map (\<lambda>q. (q, Dir True)) (ds @ [p])"
    using ds(1) by simp
  moreover have "\<forall>q \<in> set (ds @ [p]). prefix q p"
    using ds(2) pp by (auto intro: prefix_order.trans)
  moreover have "distinct (ds @ [p])" using ds(1,3) assms(2) by (auto simp: image_Un image_image)
  moreover have "set (ds @ [p]) \<inter> fst ` set files = {}"
    using ds(1,4) assms(2) by (auto simp: image_Un)
  ultimately show ?thesis unfolding dirs_added_def by blast
qed

lemma dirs_added_weaken:
  assumes "dirs_added files (parent p) files'"
  shows "dirs_added files p files'"
proof -
  from assms obtain ds where ds: "files' = files @ map (\<lambda>q. (q, Dir True)) ds"
    "\<forall>q \<in> set ds. prefix q (parent p)" "distinct ds" "set ds \<inter> fst ` set files = {}"
    unfolding dirs_added_def by blast
  have "prefix (parent p) p" by (simp add: parent_def prefixeq_butlast)
  with ds(2) have "\<forall>q \<in> set ds. prefix q p" by (auto intro: prefix_order.trans)
  with ds(1,3,4) show ?thesis unfolding dirs_added_def by blast
qed

lemma mkdir_exist_ok_Inr:
  assumes "mkdir_exist_ok w p = Inr w'"
  shows "(w' = w \<and> is_dir w p = Inr True)
           \<or> (p \<notin> fst ` set (fs w) \<and> lookup_error w p = None
               \<and> w' = w\<lparr>fs := fs w @ [(p, Dir True)]\<rparr>)"
proof (cases "os_mkdir w p")
  case (Inr w1)
  with assms os_mkdir_Inr [OF Inr] show ?thesis by (simp add: mkdir_exist_ok_def)
next
  case (Inl e)
  with assms show ?thesis
    by (cases e) (simp_all add: mkdir_exist_ok_def mkdir_recover_Inr)
qed

lemma is_dir_new:
  "p \<notin> fst ` set (fs w) \<Longrightarrow> lookup_error w p = None \<Longrightarrow>
     is_dir (w\<lparr>fs := fs w @ [(p, Dir True)]\<rparr>) p = Inr True"
  by (auto simp: is_dir_True stat_append_fresh)

lemma mkdir_parents_Inr:
  "mkdir_parents w p = Inr w' \<Longrightarrow>
     dirs_added (fs w) p (fs w') \<and> is_dir w' p = Inr True \<and> w' = w\<lparr>fs := fs w'\<rparr>"
proof (induction w p arbitrary: w' rule: mkdir_parents.induct)
  case (1 w p)
  note unf = mkdir_parents.simps [of w p]
  show ?case
  proof (cases "os_mkdir w p")
    case (Inr w1)
    with "1.prems" have "w' = w1" by (simp add: unf)
    with os_mkdir_Inr [OF Inr] show ?thesis
      by (simp add: dirs_added_one is_dir_new)
  next
    case (Inl e)
    show ?thesis
    proof (cases "e = FileNotFoundError")
      case False
      with Inl "1.prems" have "mkdir_recover w p e = Inr w'"
        by (cases e) (simp_all add: unf)
      from mkdir_recover_Inr [OF this] show ?thesis by (simp add: dirs_added_refl)
    next
      case True
      from Inl True "1.prems" have np: "parent p \<noteq> p"
        by (simp add: unf split: if_splits)
      from Inl True np "1.prems"
      have c: "(case mkdir_parents w (parent p) of Inl e \<Rightarrow> Inl e
                | Inr w1 \<Rightarrow> mkdir_exist_ok w1 p) = Inr w'"
        by (simp add: unf)
      then obtain w1 where
        par: "mkdir_parents w (parent p) = Inr w1" and ok: "mkdir_exist_ok w1 p = Inr w'"
        by (cases "mkdir_parents w (parent p)") simp_all
      from Inl True have "os_mkdir w p = Inl FileNotFoundError" by simp
      from "1.IH" [OF this refl np par]
      have d1: "dirs_added (fs w) (parent p) (fs w1)" and w1: "w1 = w\<lparr>fs := fs w1\<rparr>"
        by simp_all
      from mkdir_exist_ok_Inr [OF ok] show ?thesis
      proof
        assume a: "w' = w1 \<and> is_dir w1 p = Inr True"
        with d1 w1 show ?thesis by (simp add: dirs_added_weaken)
      next
        assume a: "p \<notin> fst ` set (fs w1) \<and> lookup_error w1 p = None
                     \<and> w' = w1\<lparr>fs := fs w1 @ [(p, Dir True)]\<rparr>"
        then have "fs w' = fs w1 @ [(p, Dir True)]" by simp
        moreover from a have "is_dir w' p = Inr True" by (simp add: is_dir_new)
        moreover from a arg_cong [OF w1, of "\<lambda>u. u\<lparr>fs := fs w1 @ [(p, Dir True)]\<rparr>"]
        have "w' = w\<lparr>fs := fs w1 @ [(p, Dir True)]\<rparr>" by simp
        ultimately show ?thesis using d1 a by (simp add: dirs_added_step)
      qed
    qed
  qed
qed

lemma mkdir_parents_is_dir: "is_dir w p = Inr True \<Longrightarrow> mkdir_parents w p = Inr w"
  by (subst mkdir_parents.simps) (simp add: os_mkdir_exists mkdir_recover_def)

lemma png_files_append_other:
  "(case n of File (Png img) \<Rightarrow> False | _ \<Rightarrow> True) \<Longrightarrow> png_files (files @ [(p, n)]) = png_files files"
  by (auto simp: png_files_def split: node.splits content.splits)

lemma dirs_added_png: "dirs_added files p files' \<Longrightarrow> png_files files' = png_files files"
  by (auto simp: dirs_added_def png_files_def)

lemma dirs_added_stat:
  "dirs_added files p files' \<Longrightarrow> \<not> prefix q p \<Longrightarrow> stat files' q = stat files q"
proof -
  assume a: "dirs_added files p files'" and q: "\<not> prefix q p"
  then obtain ds where ds: "files' = files @ map (\<lambda>q. (q, Dir True)) ds"
    "\<forall>q \<in> set ds. prefix q p"
    unfolding dirs_added_def by blast
  from ds(2) q have "q \<notin> set ds" by auto
  then have "map_of (map (\<lambda>q. (q, Dir True)) ds) q = None"
    by (simp add: map_of_eq_None_iff image_image)
  with ds(1) show ?thesis by (simp add: stat_def map_add_def split: option.splits)
qed

lemma dirs_added_keeps: "dirs_added files p files' \<Longrightarrow> stat files q = Some n \<Longrightarrow> stat files' q = Some n"
  by (auto simp: dirs_added_def stat_append_left)

lemma open_append_Inr:
  assumes "open_append p w = Inr w'"
  shows "lookup_error w p = None \<and>
         ((w' = w \<and> (\<exists>c. stat (fs w) p = Some (File c)))
           \<or> (p \<notin> fst ` set (fs w) \<and> w' = w\<lparr>fs := fs w @ [(p, File (Bytes []))]\<rparr>))"
proof (cases "stat (fs w) p")
  case None
  then have "p \<notin> fst ` set (fs w)" by (simp add: stat_None_iff)
  with assms None show ?thesis
    by (auto simp: open_append_def open_check_def update_fresh split: option.splits)
next
  case (Some n)
  with assms show ?thesis
    by (cases n) (auto simp: open_append_def open_check_def split: option.splits if_splits)
qed

lemma basicConfig_Inr:
  assumes "basicConfig a hs w = (Inr u, w')" and "root_handlers w = []"
  shows "\<exists>n. check_level a = Inr n \<and> w' = w\<lparr>root_handlers := hs, root_level := n\<rparr>"
  using assms by (cases "check_level a") (auto simp: basicConfig_def Let_def)

lemma configure_logging_Inr:
  assumes "configure_logging out lvl con w = (Inr u, w1)"
  shows "\<exists>w0 n. mkdir_parents w out = Inr w0
          \<and> lookup_error w (joinpath out ''app.log'') = None
          \<and> ((fs w1 = fs w0 \<and> (\<exists>c. stat (fs w0) (joinpath out ''app.log'') = Some (File c)))
               \<or> (joinpath out ''app.log'' \<notin> fst ` set (fs w0)
                   \<and> fs w1 = fs w0 @ [(joinpath out ''app.log'', File (Bytes []))]))
          \<and> check_level (logging_getattr (str_upper lvl) (IntAttr 20)) = Inr n
          \<and> w1 = w\<lparr>fs := fs w1,
                    root_handlers :=
                      FileHandler (joinpath out ''app.log'') # (if con then [StreamHandler] else []),
                    root_level := n\<rparr>"
proof (cases "mkdir_parents w out")
  case (Inl e)
  with assms show ?thesis by (simp add: configure_logging_def)
next
  case (Inr w0)
  let ?lf = "joinpath out ''app.log''"
  from mkdir_parents_Inr [OF Inr] have w0: "w0 = w\<lparr>fs := fs w0\<rparr>" by simp
  show ?thesis
  proof (cases "open_append ?lf w0")
    case (Inl e)
    with Inr assms show ?thesis by (simp add: configure_logging_def Let_def)
  next
    case w2: (Inr w2)
    with Inr assms have bc: "basicConfig (logging_getattr (str_upper lvl) (IntAttr 20))
        (FileHandler ?lf # (if con then [StreamHandler] else [])) (w2\<lparr>root_handlers := []\<rparr>)
          = (Inr u, w1)"
      by (simp add: configure_logging_def Let_def)
    from basicConfig_Inr [OF bc] obtain n where
      n: "check_level (logging_getattr (str_upper lvl) (IntAttr 20)) = Inr n"
      and w1: "w1 = w2\<lparr>root_handlers := FileHandler ?lf # (if con then [StreamHandler] else []),
                      root_level := n\<rparr>"
      by auto
    from open_append_Inr [OF w2] have le: "lookup_error w0 ?lf = None" by simp
    with arg_cong [OF w0, of "\<lambda>u. lookup_error u ?lf"]
    have le': "lookup_error w ?lf = None" by simp
    from open_append_Inr [OF w2]
    have "(w2 = w0 \<and> (\<exists>c. stat (fs w0) ?lf = Some (File c)))
           \<or> (?lf \<notin> fst ` set (fs w0) \<and> w2 = w0\<lparr>fs := fs w0 @ [(?lf, File (Bytes []))]\<rparr>)"
      by simp
    then show ?thesis
    proof
      assume a: "w2 = w0 \<and> (\<exists>c. stat (fs w0) ?lf = Some (File c))"
      with w1 have "fs w1 = fs w0" by simp
      moreover from a w1
        arg_cong [OF w0, of "\<lambda>u. u\<lparr>root_handlers :=
            FileHandler ?lf # (if con then [StreamHandler] else []), root_level := n\<rparr>"]
      have "w1 = w\<lparr>fs := fs w0,
          root_handlers := FileHandler ?lf # (if con then [StreamHandler] else []),
          root_level := n\<rparr>" by simp
      ultimately show ?thesis using Inr le' n a by auto
    next
      assume a: "?lf \<notin> fst ` set (fs w0) \<and> w2 = w0\<lparr>fs := fs w0 @ [(?lf, File (Bytes []))]\<rparr>"
      with w1 have f: "fs w1 = fs w0 @ [(?lf, File (Bytes []))]" by simp
      from a w1
        arg_cong [OF w0, of "\<lambda>u. u\<lparr>fs := fs w0 @ [(?lf, File (Bytes []))],
            root_handlers := FileHandler ?lf # (if con then [StreamHandler] else []),
            root_level := n\<rparr>"]
      have "w1 = w\<lparr>fs := fs w0 @ [(?lf, File (Bytes []))],
          root_handlers := FileHandler ?lf # (if con then [StreamHandler] else []),
          root_level := n\<rparr>" by simp
      then have "w1 = w\<lparr>fs := fs w1,
          root_handlers := FileHandler ?lf # (if con then [StreamHandler] else []),
          root_level := n\<rparr>" using f by simp
      with Inr le' n a f show ?thesis by auto
    qed
  qed
qed

lemma configure_logging_facts:
  assumes "configure_logging out lvl con w = (Inr u, w1)"
  shows "is_dir w1 out = Inr True"
    and "png_files (fs w1) = png_files (fs w)"
    and "logged w1 = logged w"
    and "io_fault w1 = io_fault w"
    and "convert_from_path w1 = convert_from_path w"
    and "\<And>q n. stat (fs w) q = Some n \<Longrightarrow> stat (fs w1) q = Some n"
    and "\<And>q. \<not> prefix q out \<Longrightarrow> q \<noteq> joinpath out ''app.log'' \<Longrightarrow> stat (fs w1) q = stat (fs w) q"
    and "\<And>q. \<not> prefix q out \<Longrightarrow> is_dir w q = Inr False \<Longrightarrow> is_dir w1 q = Inr False"
    and "\<exists>c. stat (fs w1) (joinpath out ''app.log'') = Some (File c)"
    and "root_handlers w1 =
           FileHandler (joinpath out ''app.log'') # (if con then [StreamHandler] else [])"
proof -
  let ?lf = "joinpath out ''app.log''"
  from configure_logging_Inr [OF assms] obtain w0 n where
    mk: "mkdir_parents w out = Inr w0"
    and f: "(fs w1 = fs w0 \<and> (\<exists>c. stat (fs w0) ?lf = Some (File c)))
             \<or> (?lf \<notin> fst ` set (fs w0) \<and> fs w1 = fs w0 @ [(?lf, File (Bytes []))])"
    and w1: "w1 = w\<lparr>fs := fs w1,
                    root_handlers := FileHandler ?lf # (if con then [StreamHandler] else []),
                    root_level := n\<rparr>"
    by blast
  from mkdir_parents_Inr [OF mk] have da: "dirs_added (fs w) out (fs w0)"
    and d: "is_dir w0 out = Inr True" and w0: "w0 = w\<lparr>fs := fs w0\<rparr>"
    by simp_all
  from arg_cong [OF w1, of io_fault] show io: "io_fault w1 = io_fault w" by simp
  from arg_cong [OF w0, of io_fault] have io0: "io_fault w0 = io_fault w" by simp
  have le: "\<And>q. lookup_error w1 q = lookup_error w q" "\<And>q. lookup_error w0 q = lookup_error w q"
    using io io0 by (simp_all add: lookup_error_def)
  from d have "lookup_error w out = None" and "\<exists>wr. stat (fs w0) out = Some (Dir wr)"
    by (simp_all add: is_dir_True le)
  with f show "is_dir w1 out = Inr True"
    by (auto simp: is_dir_True le stat_append_left)
  from f dirs_added_png [OF da] show "png_files (fs w1) = png_files (fs w)"
    by (auto simp: png_files_append_other)
  from arg_cong [OF w1, of logged] show "logged w1 = logged w" by simp
  from arg_cong [OF w1, of convert_from_path] show "convert_from_path w1 = convert_from_path w"
    by simp
  show "\<And>q n. stat (fs w) q = Some n \<Longrightarrow> stat (fs w1) q = Some n"
    using f dirs_added_keeps [OF da] by (auto simp: stat_append_left)
  show st: "\<And>q. \<not> prefix q out \<Longrightarrow> q \<noteq> ?lf \<Longrightarrow> stat (fs w1) q = stat (fs w) q"
    using f dirs_added_stat [OF da] by (auto simp: stat_append_fresh)
  show "\<And>q. \<not> prefix q out \<Longrightarrow> is_dir w q = Inr False \<Longrightarrow> is_dir w1 q = Inr False"
  proof -
    fix q assume q: "\<not> prefix q out" "is_dir w q = Inr False"
    from dirs_added_stat [OF da q(1)] have s0: "stat (fs w0) q = stat (fs w) q" .
    show "is_dir w1 q = Inr False"
    proof (cases "lookup_error w q")
      case (Some e)
      with q(2) show ?thesis by (simp add: is_dir_False le)
    next
      case None
      with q(2) have ns: "\<not> (\<exists>wr. stat (fs w) q = Some (Dir wr))" by (simp add: is_dir_False)
      from f s0 have "stat (fs w1) q = stat (fs w) q \<or> stat (fs w1) q = Some (File (Bytes []))"
        by (auto simp: stat_append_fresh)
      with ns have "\<not> (\<exists>wr. stat (fs w1) q = Some (Dir wr))" by auto
      with None show ?thesis by (simp add: is_dir_False le)
    qed
  qed
  from f show "\<exists>c. stat (fs w1) ?lf = Some (File c)"
    by (auto simp: stat_append_fresh)
  from arg_cong [OF w1, of root_handlers]
  show "root_handlers w1 = FileHandler ?lf # (if con then [StreamHandler] else [])" by simp
qed

section \<open>Properties of the orchestrator\<close>

lemma main_after_setup:
  assumes "parse_args args w = Inr ns"
    and "configure_logging (ns_output_dir ns) (ns_log_level ns) (ns_log_to_console ns) w
           = (Inr (), w1)"
    and "is_dir w1 (ns_input_dir ns) = Inr d"
  shows "main args w =
     (if \<not> d
      then (Inr 1, logger_log ERROR
              (''Input directory does not exist: '' @ path_str (ns_input_dir ns)) w1)
      else if \<not> os_access_W w1 (ns_output_dir ns)
      then (Inr 1, logger_log ERROR
              (''Output directory is not writable: '' @ path_str (ns_output_dir ns)) w1)
      else if glob_pdf (fs w1) (ns_input_dir ns) = []
      then (Inr 0, logger_log WARNING
              (''No PDF files found in '' @ path_str (ns_input_dir ns)) w1)
      else convert_all (glob_pdf (fs w1) (ns_input_dir ns)) (ns_output_dir ns) 0 w1)"
proof -
  from configure_logging_facts(1) [OF assms(2)]
  have "mkdir_parents w1 (ns_output_dir ns) = Inr w1"
    by (rule mkdir_parents_is_dir)
  with assms show ?thesis by (simp add: main_def Let_def)
qed

lemma main_input_lookup_raises:
  assumes "parse_args args w = Inr ns"
    and "configure_logging (ns_output_dir ns) (ns_log_level ns) (ns_log_to_console ns) w
           = (Inr (), w1)"
    and "is_dir w1 (ns_input_dir ns) = Inl e"
  shows "main args w = (Inl (OSError e), w1)"
  using assms by (simp add: main_def)

lemma main_output_dir_failure:
  assumes "parse_args args w = Inr ns"
    and "mkdir_parents w (ns_output_dir ns) = Inl e"
  shows "main args w = (Inl (OSError e), w)"
  using assms by (simp add: main_def configure_logging_def)


text \<open>
  C4 (amended). When the arguments parse, logging setup succeeds, and the lookup of the
  input directory answers that it is no directory, the input directory being neither
  the output directory nor one of its ancestors, \<open>main\<close> logs an error and returns 1
  without writing a page image. In the world it leaves, logging setup has made the
  output directory a directory and \<open>app.log\<close> a file in it; the page images are the same
  as before the run, and no path other than the output directory, its ancestors and
  \<open>app.log\<close> has changed.
\<close>

theorem main_missing_input_dir:
  assumes "parse_args args w = Inr ns"
    and "configure_logging (ns_output_dir ns) (ns_log_level ns) (ns_log_to_console ns) w
           = (Inr (), w1)"
    and "is_dir w (ns_input_dir ns) = Inr False"
    and "\<not> prefix (ns_input_dir ns) (ns_output_dir ns)"
  shows "main args w =
           (Inr 1,
            w1\<lparr>logged := logged w1 @
                  [(ERROR, ''Input directory does not exist: '' @ path_str (ns_input_dir ns))]\<rparr>)
         \<and> is_dir w1 (ns_output_dir ns) = Inr True
         \<and> (\<exists>c. stat (fs w1) (joinpath (ns_output_dir ns) ''app.log'') = Some (File c))
         \<and> png_files (fs w1) = png_files (fs w)
         \<and> (\<forall>q. \<not> prefix q (ns_output_dir ns) \<and> q \<noteq> joinpath (ns_output_dir ns) ''app.log''
                \<longrightarrow> stat (fs w1) q = stat (fs w) q)"
proof -
  from configure_logging_facts(8) [OF assms(2) assms(4) assms(3)]
  have "is_dir w1 (ns_input_dir ns) = Inr False" .
  from main_after_setup [OF assms(1,2) this] configure_logging_facts(1,2,7,9) [OF assms(2)]
  show ?thesis by (simp add: logger_log_def)
qed

lemma parse_two:
  "parse_args [InputDirArg i, OutputDirArg out] w =
     Inr ((default_namespace w)\<lparr>ns_input_dir := i, ns_output_dir := out\<rparr>)"
  by (simp add: parse_args_def)

lemma default_ns_fields:
  "ns_log_level (default_namespace w) = ''INFO''"
  "ns_log_to_console (default_namespace w) = False"
  by (simp_all add: default_namespace_def)

lemma sample_files:
  "fs sample_world =
     [([], Dir True), ([''data''], Dir True), ([''data'', ''report.pdf''], File (Bytes [])),
      ([''data'', ''notes.pdf''], File (Bytes [])), ([''out''], Dir True)]"
  by (simp add: sample_world_def report_pdf_def notes_pdf_def)

lemma sample_misc:
  "logged sample_world = []" "io_fault sample_world p = None"
  "lookup_error sample_world p = None"
  by (simp_all add: sample_world_def lookup_error_def)

lemma str_upper_INFO: "str_upper ''INFO'' = ''INFO''"
  by code_simp


theorem main_missing_input_dir_witness:
  "main [InputDirArg [''missing''], OutputDirArg [''newout'']] sample_world =
     (Inr 1,
      sample_world
        \<lparr>fs := fs sample_world @
                 [([''newout''], Dir True), ([''newout'', ''app.log''], File (Bytes []))],
          root_level := 20,
          root_handlers := [FileHandler [''newout'', ''app.log'']],
          logged := [(ERROR, ''Input directory does not exist: /missing'')]\<rparr>)
   \<and> png_files (fs sample_world) = []"
proof -
  let ?ns = "(default_namespace sample_world)
               \<lparr>ns_input_dir := [''missing''], ns_output_dir := [''newout'']\<rparr>"
  let ?w1 = "sample_world
        \<lparr>fs := fs sample_world @
                 [([''newout''], Dir True), ([''newout'', ''app.log''], File (Bytes []))],
          root_level := 20,
          root_handlers := [FileHandler [''newout'', ''app.log'']]\<rparr>"
  have om: "os_mkdir sample_world [''newout''] =
      Inr (sample_world\<lparr>fs := fs sample_world @ [([''newout''], Dir True)]\<rparr>)"
    by (simp add: os_mkdir_def sample_misc sample_files stat_def create_check_def parent_def)
  have mk: "mkdir_parents sample_world [''newout''] =
      Inr (sample_world\<lparr>fs := fs sample_world @ [([''newout''], Dir True)]\<rparr>)"
    by (subst mkdir_parents.simps) (simp add: om)
  have h1: "parse_args [InputDirArg [''missing''], OutputDirArg [''newout'']] sample_world = Inr ?ns"
    by (rule parse_two)
  have h2: "configure_logging (ns_output_dir ?ns) (ns_log_level ?ns) (ns_log_to_console ?ns)
              sample_world = (Inr (), ?w1)"
    by (simp add: configure_logging_def default_ns_fields mk open_append_def
          open_check_def create_check_def parent_def joinpath_def stat_def sample_files
          sample_misc str_upper_INFO logging_getattr_def logging_attrs_def basicConfig_def
          check_level_def Let_def)
  have h3: "is_dir sample_world (ns_input_dir ?ns) = Inr False"
    by (simp add: sample_files is_dir_False sample_misc stat_def)
  have h4: "\<not> prefix (ns_input_dir ?ns) (ns_output_dir ?ns)"
    by simp
  from main_missing_input_dir [OF h1 h2 h3 h4] sample_misc(1)
  show ?thesis by (simp add: path_str_def sample_files png_files_def)
qed

text \<open>
  As stated, the claim for a missing input directory fails. With \<open>/missing\<close> as input
  and \<open>/newout\<close> as output, \<open>main\<close> returns 1 but logging setup, which runs first, has
  created \<open>/newout\<close> and \<open>/newout/app.log\<close>. With the same missing directory as input
  and output, logging setup creates it and \<open>main\<close> returns 0.
\<close>

theorem main_missing_input_dir_counterexample:
  "is_dir sample_world [''missing''] = Inr False
   \<and> fst (main [InputDirArg [''missing''], OutputDirArg [''newout'']] sample_world) = Inr 1
   \<and> stat (fs sample_world) [''newout''] = None
   \<and> stat (fs sample_world) [''newout'', ''app.log''] = None
   \<and> stat (fs (snd (main [InputDirArg [''missing''], OutputDirArg [''newout'']] sample_world)))
         [''newout''] = Some (Dir True)
   \<and> stat (fs (snd (main [InputDirArg [''missing''], OutputDirArg [''newout'']] sample_world)))
         [''newout'', ''app.log''] = Some (File (Bytes []))
   \<and> is_dir sample_world [''newdir''] = Inr False
   \<and> fst (main [InputDirArg [''newdir''], OutputDirArg [''newdir'']] sample_world) = Inr 0"
proof -
  have "is_dir sample_world [''missing''] = Inr False" by code_simp
  moreover have "fst (main [InputDirArg [''missing''], OutputDirArg [''newout'']] sample_world) = Inr 1"
    by code_simp
  moreover have "stat (fs sample_world) [''newout''] = None" by code_simp
  moreover have "stat (fs sample_world) [''newout'', ''app.log''] = None" by code_simp
  moreover have "stat (fs (snd (main [InputDirArg [''missing''], OutputDirArg [''newout'']] sample_world)))
         [''newout''] = Some (Dir True)" by code_simp
  moreover have "stat (fs (snd (main [InputDirArg [''missing''], OutputDirArg [''newout'']] sample_world)))
         [''newout'', ''app.log''] = Some (File (Bytes []))" by code_simp
  moreover have "is_dir sample_world [''newdir''] = Inr False" by code_simp
  moreover have "fst (main [InputDirArg [''newdir''], OutputDirArg [''newdir'']] sample_world) = Inr 0"
    by code_simp
  ultimately show ?thesis by blast
qed

lemma main_mkdir_handler_unreachable:
  assumes "configure_logging out lvl con w = (Inr (), w1)"
  shows "mkdir_parents w1 out = Inr w1"
  using configure_logging_facts(1) [OF assms] by (rule mkdir_parents_is_dir)

text \<open>
  C6. The output directory cannot be created: its path is taken by a regular file, while
  the input directory exists. \<open>main\<close> neither returns 1 nor logs anything: the
  \<open>mkdir\<close> of logging setup, which runs before the guarded \<open>mkdir\<close> of \<open>main\<close>,
  raises \<open>FileExistsError\<close>, and the exception leaves \<open>main\<close> with the world unchanged.
  By \<open>main_output_dir_failure\<close> this happens for every failure to create the output
  directory, and by \<open>main_mkdir_handler_unreachable\<close> the guarded \<open>mkdir\<close> of \<open>main\<close>
  cannot fail once logging setup has succeeded.
\<close>

theorem main_output_dir_blocked:
  "is_dir blocked_world [''data''] = Inr True
   \<and> mkdir_parents blocked_world [''out''] = Inl FileExistsError
   \<and> main [InputDirArg [''data''], OutputDirArg [''out'']] blocked_world =
       (Inl (OSError FileExistsError), blocked_world)"
proof -
  have d: "is_dir blocked_world [''data''] = Inr True" by code_simp
  have bf: "fs blocked_world =
      [([], Dir True), ([''data''], Dir True), ([''out''], File (Bytes []))]"
    and bl: "\<And>p. lookup_error blocked_world p = None"
    by (simp_all add: blocked_world_def sample_world_def lookup_error_def)
  have m: "mkdir_parents blocked_world [''out''] = Inl FileExistsError"
    by (subst mkdir_parents.simps)
      (simp add: os_mkdir_def mkdir_recover_def is_dir_def bl bf stat_def)
  have p: "parse_args [InputDirArg [''data''], OutputDirArg [''out'']] blocked_world =
      Inr ((default_namespace blocked_world)\<lparr>ns_input_dir := [''data''], ns_output_dir := [''out'']\<rparr>)"
    by (rule parse_two)
  from main_output_dir_failure [OF p] m d show ?thesis by simp
qed

lemma configure_logging_fallback:
  assumes "map_of logging_attrs (str_upper lvl) = None"
    and "mkdir_parents w out = Inr w0"
    and "open_append (joinpath out ''app.log'') w0 = Inr w2"
  shows "configure_logging out lvl con w =
           (Inr (),
            w2\<lparr>root_handlers :=
                  FileHandler (joinpath out ''app.log'') # (if con then [StreamHandler] else []),
                root_level := 20\<rparr>)"
  using assms
  by (simp add: configure_logging_def Let_def logging_getattr_def basicConfig_def check_level_def)

text \<open>
  C10. \<open>configure_logging\<close> with the level string \<open>basic_format\<close>, whose upper case is
  no level name: \<open>getattr\<close> finds the module's format string \<open>BASIC_FORMAT\<close> instead of
  falling back to \<open>INFO\<close>, \<open>basicConfig\<close> attaches the file handler and then rejects the
  level, and the function raises \<open>ValueError\<close>. By \<open>configure_logging_fallback\<close> the
  fallback to \<open>INFO\<close> does happen for every string whose upper case is not an attribute
  of the module.
\<close>

theorem configure_logging_basic_format:
  "map_of name_to_level (str_upper ''basic_format'') = None
   \<and> configure_logging [''out''] ''basic_format'' False sample_world =
       (Inl (ValueError ''Unknown level: %(levelname)s:%(name)s:%(message)s''),
        sample_world
          \<lparr>fs := fs sample_world @ [([''out'', ''app.log''], File (Bytes []))],
            root_handlers := [FileHandler [''out'', ''app.log'']]\<rparr>)"
proof -
  have up: "str_upper ''basic_format'' = ''BASIC_FORMAT''" by code_simp
  have mk: "mkdir_parents sample_world [''out''] = Inr sample_world"
    by (rule mkdir_parents_is_dir) (auto simp: sample_files sample_misc is_dir_True stat_def)
  have "map_of name_to_level (str_upper ''basic_format'') = None"
    by (simp add: up name_to_level_def)
  moreover have "configure_logging [''out''] ''basic_format'' False sample_world =
       (Inl (ValueError ''Unknown level: %(levelname)s:%(name)s:%(message)s''),
        sample_world
          \<lparr>fs := fs sample_world @ [([''out'', ''app.log''], File (Bytes []))],
            root_handlers := [FileHandler [''out'', ''app.log'']]\<rparr>)"
    by (simp add: configure_logging_def mk open_append_def open_check_def
          create_check_def parent_def joinpath_def stat_def sample_files sample_misc up
          logging_getattr_def logging_attrs_def name_to_level_def basicConfig_def
          check_level_def Let_def)
  ultimately show ?thesis by simp
qed

subsection \<open>Argument validation\<close>

lemma parse_known_args_append:
  "parse_known_args (pre @ post) ns extras =
     (case parse_known_args pre ns extras of
        Inl e \<Rightarrow> Inl e
      | Inr (ns1, ex1) \<Rightarrow> parse_known_args post ns1 ex1)"
  by (induction pre ns extras rule: parse_known_args.induct) simp_all

lemma parse_known_args_status:
  "parse_known_args args ns extras = Inl e \<Longrightarrow> e = SystemExit 0 \<or> e = SystemExit 2"
  by (induction args ns extras rule: parse_known_args.induct) (auto split: if_splits)

lemma parse_known_args_usage:
  "parse_known_args args ns extras = Inl e \<Longrightarrow> HelpFlag \<notin> set args \<Longrightarrow> e = SystemExit 2"
  by (induction args ns extras rule: parse_known_args.induct) (auto split: if_splits)

lemma parse_known_args_completes:
  "(\<exists>r. parse_known_args args ns extras = Inr r) \<longleftrightarrow>
     HelpFlag \<notin> set args \<and> MissingValue \<notin> set args
     \<and> (\<forall>u. LogLevelArg u \<in> set args \<longrightarrow> u \<in> set log_level_choices)"
  by (induction args ns extras rule: parse_known_args.induct) auto

lemma parse_known_args_extras:
  "parse_known_args args ns extras = Inr (ns', extras') \<Longrightarrow>
     extras' = [] \<longleftrightarrow> extras = [] \<and> (\<forall>t. Unrecognized t \<notin> set args)"
  by (induction args ns extras rule: parse_known_args.induct) (auto split: if_splits)

lemma parse_args_accepts_iff:
  "(\<exists>ns. parse_args args w = Inr ns) \<longleftrightarrow>
     HelpFlag \<notin> set args \<and> MissingValue \<notin> set args \<and> (\<forall>t. Unrecognized t \<notin> set args)
     \<and> (\<forall>u. LogLevelArg u \<in> set args \<longrightarrow> u \<in> set log_level_choices)"
proof (cases "parse_known_args args (default_namespace w) []")
  case (Inl e)
  with parse_known_args_completes [of args "default_namespace w" "[]"]
  show ?thesis by (auto simp: parse_args_def)
next
  case (Inr r)
  obtain ns' extras' where r: "r = (ns', extras')" by (cases r)
  from parse_known_args_extras [OF Inr [unfolded r]]
  have "extras' = [] \<longleftrightarrow> (\<forall>t. Unrecognized t \<notin> set args)" by simp
  with Inr r parse_known_args_completes [of args "default_namespace w" "[]"]
  show ?thesis by (auto simp: parse_args_def)
qed

lemma parse_args_bad_value:
  assumes "v \<notin> set log_level_choices"
  shows "\<exists>c. parse_args (pre @ LogLevelArg v # post) w = Inl (SystemExit c)"
    and "HelpFlag \<notin> set pre \<Longrightarrow> parse_args (pre @ LogLevelArg v # post) w = Inl (SystemExit 2)"
proof -
  let ?d = "default_namespace w"
  have stop: "\<exists>e. parse_known_args (pre @ LogLevelArg v # post) ?d [] = Inl e
      \<and> (HelpFlag \<notin> set pre \<longrightarrow> e = SystemExit 2)"
  proof (cases "parse_known_args pre ?d []")
    case (Inl e)
    with parse_known_args_usage [OF Inl] show ?thesis
      by (simp add: parse_known_args_append)
  next
    case (Inr r)
    with assms show ?thesis
      by (cases r) (simp add: parse_known_args_append)
  qed
  then obtain e where e: "parse_known_args (pre @ LogLevelArg v # post) ?d [] = Inl e"
    and u: "HelpFlag \<notin> set pre \<longrightarrow> e = SystemExit 2" by blast
  from parse_known_args_status [OF e] e
  show "\<exists>c. parse_args (pre @ LogLevelArg v # post) w = Inl (SystemExit c)"
    by (auto simp: parse_args_def)
  assume "HelpFlag \<notin> set pre"
  with u e show "parse_args (pre @ LogLevelArg v # post) w = Inl (SystemExit 2)"
    by (simp add: parse_args_def)
qed

lemma main_parse_failure: "parse_args args w = Inl e \<Longrightarrow> main args w = (Inl e, w)"
  by (simp add: main_def)

text \<open>
  C5 (amended). For every command line: it is accepted if and only if every
  \<open>--log-level\<close> value on it is, letter for letter, one of \<open>DEBUG\<close>, \<open>INFO\<close>,
  \<open>WARNING\<close>, \<open>ERROR\<close>, \<open>CRITICAL\<close> and it holds no help flag, no option without its
  value and no unrecognised token. A value that is one of the five names is taken when
  the parser reaches it, and parsing goes on with the items after it. A value that is
  not one of them ends the run with \<open>SystemExit\<close> and the world untouched, so no logging
  or directory work has happened; the status is 2 unless a help flag stands before the
  value.
\<close>

theorem parse_args_log_level:
  "((\<exists>ns. parse_args args w = Inr ns) \<longleftrightarrow>
      HelpFlag \<notin> set args \<and> MissingValue \<notin> set args \<and> (\<forall>t. Unrecognized t \<notin> set args)
      \<and> (\<forall>u. LogLevelArg u \<in> set args \<longrightarrow> u \<in> set log_level_choices))
   \<and> (v \<in> set log_level_choices
        \<and> parse_known_args pre (default_namespace w) [] = Inr (ns1, ex1) \<longrightarrow>
          parse_known_args (pre @ LogLevelArg v # post) (default_namespace w) []
            = parse_known_args post (ns1\<lparr>ns_log_level := v\<rparr>) ex1)
   \<and> (v \<notin> set log_level_choices \<longrightarrow>
        (\<exists>c. main (pre @ LogLevelArg v # post) w = (Inl (SystemExit c), w))
        \<and> (HelpFlag \<notin> set pre \<longrightarrow>
             main (pre @ LogLevelArg v # post) w = (Inl (SystemExit 2), w)))"
proof (intro conjI impI)
  show "(\<exists>ns. parse_args args w = Inr ns) \<longleftrightarrow>
      HelpFlag \<notin> set args \<and> MissingValue \<notin> set args \<and> (\<forall>t. Unrecognized t \<notin> set args)
      \<and> (\<forall>u. LogLevelArg u \<in> set args \<longrightarrow> u \<in> set log_level_choices)"
    by (rule parse_args_accepts_iff)
next
  assume "v \<in> set log_level_choices
        \<and> parse_known_args pre (default_namespace w) [] = Inr (ns1, ex1)"
  then show "parse_known_args (pre @ LogLevelArg v # post) (default_namespace w) []
            = parse_known_args post (ns1\<lparr>ns_log_level := v\<rparr>) ex1"
    by (simp add: parse_known_args_append)
next
  assume a: "v \<notin> set log_level_choices"
  from parse_args_bad_value(1) [OF a, of pre post w]
  show "\<exists>c. main (pre @ LogLevelArg v # post) w = (Inl (SystemExit c), w)"
    by (auto simp: main_parse_failure)
next
  assume a: "v \<notin> set log_level_choices" and h: "HelpFlag \<notin> set pre"
  from parse_args_bad_value(2) [OF a h, of post w]
  show "main (pre @ LogLevelArg v # post) w = (Inl (SystemExit 2), w)"
    by (simp add: main_parse_failure)
qed

theorem parse_args_log_level_witness:
  "(\<exists>ns. parse_args [LogLevelArg ''DEBUG'', LogToConsoleFlag] sample_world = Inr ns)
   \<and> parse_known_args [LogToConsoleFlag, LogLevelArg ''ERROR'', OutputDirArg [''out'']]
        (default_namespace sample_world) [] =
      Inr ((default_namespace sample_world)
             \<lparr>ns_log_to_console := True, ns_log_level := ''ERROR'', ns_output_dir := [''out'']\<rparr>,
           [])
   \<and> main [OutputDirArg [''out''], LogLevelArg ''verbose'', HelpFlag] sample_world =
       (Inl (SystemExit 2), sample_world)"
proof -
  let ?d = "default_namespace sample_world"
  have c1: "HelpFlag \<notin> set [LogLevelArg ''DEBUG'', LogToConsoleFlag]
      \<and> MissingValue \<notin> set [LogLevelArg ''DEBUG'', LogToConsoleFlag]
      \<and> (\<forall>t. Unrecognized t \<notin> set [LogLevelArg ''DEBUG'', LogToConsoleFlag])
      \<and> (\<forall>u. LogLevelArg u \<in> set [LogLevelArg ''DEBUG'', LogToConsoleFlag]
             \<longrightarrow> u \<in> set log_level_choices)"
    by (simp add: log_level_choices_def)
  have c2: "''ERROR'' \<in> set log_level_choices
      \<and> parse_known_args [LogToConsoleFlag] ?d [] = Inr (?d\<lparr>ns_log_to_console := True\<rparr>, [])"
    by (simp add: log_level_choices_def)
  have c3: "''verbose'' \<notin> set log_level_choices" by (simp add: log_level_choices_def)
  have c4: "HelpFlag \<notin> set [OutputDirArg [''out'']]" by simp
  from parse_args_log_level
    [of "[LogLevelArg ''DEBUG'', LogToConsoleFlag]" sample_world "''ERROR''"
        "[LogToConsoleFlag]" "?d\<lparr>ns_log_to_console := True\<rparr>" "[]" "[OutputDirArg [''out'']]"] c1 c2
  have "(\<exists>ns. parse_args [LogLevelArg ''DEBUG'', LogToConsoleFlag] sample_world = Inr ns)"
    and "parse_known_args ([LogToConsoleFlag] @ LogLevelArg ''ERROR'' # [OutputDirArg [''out'']]) ?d []
          = parse_known_args [OutputDirArg [''out'']]
              (?d\<lparr>ns_log_to_console := True, ns_log_level := ''ERROR''\<rparr>) []"
    by blast+
  moreover from parse_args_log_level
    [of "[]" sample_world "''verbose''" "[OutputDirArg [''out'']]" ?d "[]" "[HelpFlag]"] c3 c4
  have "main ([OutputDirArg [''out'']] @ LogLevelArg ''verbose'' # [HelpFlag]) sample_world =
       (Inl (SystemExit 2), sample_world)" by blast
  ultimately show ?thesis by simp
qed

text \<open>
  The comparison is not case-insensitive: \<open>debug\<close> names a level once put in upper
  case, and is rejected with status 2.
\<close>

theorem parse_args_log_level_counterexample:
  "str_upper ''debug'' \<in> set log_level_choices
   \<and> parse_args [LogLevelArg ''debug''] sample_world = Inl (SystemExit 2)
   \<and> main [LogLevelArg ''debug''] sample_world = (Inl (SystemExit 2), sample_world)"
proof -
  have "str_upper ''debug'' = ''DEBUG''" by code_simp
  then have "str_upper ''debug'' \<in> set log_level_choices" by (simp add: log_level_choices_def)
  moreover have p: "parse_args [LogLevelArg ''debug''] sample_world = Inl (SystemExit 2)"
    by (simp add: parse_args_def log_level_choices_def)
  ultimately show ?thesis by (simp add: main_def)
qed

subsection \<open>The batch loop\<close>

lemma save_pages_raises:
  "save_pages xs pdf out ov acc w = (Inl e, w') \<Longrightarrow>
     (\<exists>m c. e = PdfConversionError m c) \<or> (\<exists>e'. e = OSError e')"
proof (induction xs arbitrary: acc w)
  case Nil
  then show ?case by simp
next
  case (Cons x xs)
  obtain i img where x: "x = (i, img)" by (cases x)
  from Cons.prems [unfolded x] show ?case
  proof (cases rule: save_pages_step)
    case (raise e')
    then show ?thesis by simp
  next
    case skip
    from Cons.IH [OF skip(3)] show ?thesis .
  next
    case (fail present e')
    then show ?thesis by simp
  next
    case (save present w2)
    from Cons.IH [OF save(4)] show ?thesis .
  qed
qed

lemma pdf_to_pngs_raises:
  "pdf_to_pngs pdf out ov w = (Inl e, w') \<Longrightarrow>
     (\<exists>m c. e = PdfConversionError m c) \<or> (\<exists>e'. e = OSError e')"
  by (auto simp: pdf_to_pngs_def split: sum.splits dest: save_pages_raises)

lemma save_pages_logged:
  "save_pages xs pdf out ov acc w = (r, w') \<Longrightarrow> prefix (logged w) (logged w')"
proof (induction xs arbitrary: acc w)
  case Nil
  then show ?case by simp
next
  case (Cons x xs)
  obtain i img where x: "x = (i, img)" by (cases x)
  from Cons.prems [unfolded x] show ?case
  proof (cases rule: save_pages_step)
    case (raise e')
    then show ?thesis by simp
  next
    case skip
    from Cons.IH [OF skip(3)] show ?thesis by (auto dest: append_prefixD)
  next
    case (fail present e')
    then show ?thesis by simp
  next
    case (save present w2)
    from Cons.IH [OF save(4)] img_save_Inr [OF save(3)] show ?thesis
      by (auto dest: append_prefixD)
  qed
qed

lemma pdf_to_pngs_logged:
  "pdf_to_pngs pdf out ov w = (r, w') \<Longrightarrow> prefix (logged w) (logged w')"
  by (auto simp: pdf_to_pngs_def split: sum.splits dest: save_pages_logged)

lemma batch_spec_logged:
  "batch_spec ds out w = (rs, w_end) \<Longrightarrow> prefix (logged w) (logged w_end)"
proof (induction ds arbitrary: w rs)
  case Nil
  then show ?case by simp
next
  case (Cons d ds)
  obtain r w' where run: "pdf_to_pngs d out False w = (r, w')"
    by (cases "pdf_to_pngs d out False w")
  note l = pdf_to_pngs_logged [OF run]
  show ?case
  proof (cases r)
    case (Inr paths)
    with run Cons.prems obtain rs' where "batch_spec ds out w' = (rs', w_end)"
      by (auto split: prod.splits)
    from Cons.IH [OF this] l show ?thesis by (rule prefix_order.trans [rotated])
  next
    case (Inl e)
    let ?w = "logger_log ERROR (case e of PdfConversionError msg c \<Rightarrow> msg | _ \<Rightarrow> []) w'"
    from Inl run Cons.prems obtain rs' where "batch_spec ds out ?w = (rs', w_end)"
      by (auto split: prod.splits)
    from Cons.IH [OF this] have "prefix (logged w') (logged w_end)"
      by (auto dest: append_prefixD)
    with l show ?thesis by (rule prefix_order.trans)
  qed
qed

lemma batch_spec_length:
  "batch_spec ds out w = (rs, w_end) \<Longrightarrow> length rs = length ds"
proof (induction ds arbitrary: w rs)
  case Nil
  then show ?case by simp
next
  case (Cons d ds)
  obtain r w' where run: "pdf_to_pngs d out False w = (r, w')"
    by (cases "pdf_to_pngs d out False w")
  show ?case
  proof (cases r)
    case (Inr paths)
    with run Cons.prems obtain rs' where "batch_spec ds out w' = (rs', w_end)"
      and "rs = Inr paths # rs'"
      by (auto split: prod.splits)
    with Cons.IH show ?thesis by auto
  next
    case (Inl e)
    let ?w = "logger_log ERROR (case e of PdfConversionError msg c \<Rightarrow> msg | _ \<Rightarrow> []) w'"
    from Inl run Cons.prems obtain rs' where "batch_spec ds out ?w = (rs', w_end)"
      and "rs = Inl e # rs'"
      by (auto split: prod.splits)
    with Cons.IH show ?thesis by auto
  qed
qed

lemma batch_spec_errors_logged:
  "batch_spec ds out w = (rs, w_end) \<Longrightarrow> Inl (PdfConversionError m c) \<in> set rs \<Longrightarrow>
     (ERROR, m) \<in> set (logged w_end)"
proof (induction ds arbitrary: w rs)
  case Nil
  then show ?case by simp
next
  case (Cons d ds)
  obtain r w' where run: "pdf_to_pngs d out False w = (r, w')"
    by (cases "pdf_to_pngs d out False w")
  show ?case
  proof (cases r)
    case (Inr paths)
    with run Cons.prems obtain rs' where b: "batch_spec ds out w' = (rs', w_end)"
      and "rs = Inr paths # rs'"
      by (auto split: prod.splits)
    with Cons.prems(2) have "Inl (PdfConversionError m c) \<in> set rs'" by simp
    from Cons.IH [OF b this] show ?thesis .
  next
    case (Inl e)
    let ?w = "logger_log ERROR (case e of PdfConversionError msg c \<Rightarrow> msg | _ \<Rightarrow> []) w'"
    from Inl run Cons.prems obtain rs' where b: "batch_spec ds out ?w = (rs', w_end)"
      and rs: "rs = Inl e # rs'"
      by (auto split: prod.splits)
    show ?thesis
    proof (cases "e = PdfConversionError m c")
      case True
      then have "(ERROR, m) \<in> set (logged ?w)" by simp
      with batch_spec_logged [OF b] show ?thesis
        by (auto simp: prefix_def)
    next
      case False
      with rs Cons.prems(2) have "Inl (PdfConversionError m c) \<in> set rs'" by simp
      from Cons.IH [OF b this] show ?thesis .
    qed
  qed
qed

text \<open>
  Unless the lookup of a page path raises, the loop of \<open>main\<close> does what the
  specification says of it.
\<close>

lemma convert_all_batch:
  "batch_spec ds out w = (rs, w_end) \<Longrightarrow> \<forall>r \<in> set rs. \<forall>e. r \<noteq> Inl (OSError e) \<Longrightarrow>
     convert_all ds out code w = (Inr (if \<exists>r \<in> set rs. isl r then 1 else code), w_end)"
proof (induction ds arbitrary: w rs code)
  case Nil
  then show ?case by simp
next
  case (Cons d ds)
  obtain r w' where run: "pdf_to_pngs d out False w = (r, w')"
    by (cases "pdf_to_pngs d out False w")
  show ?case
  proof (cases r)
    case (Inr paths)
    with run Cons.prems(1) obtain rs' where b: "batch_spec ds out w' = (rs', w_end)"
      and rs: "rs = Inr paths # rs'"
      by (auto split: prod.splits)
    from rs Cons.prems(2) have "\<forall>r \<in> set rs'. \<forall>e. r \<noteq> Inl (OSError e)" by simp
    from Cons.IH [OF b this, of code] run Inr rs show ?thesis by simp
  next
    case (Inl e)
    let ?w = "logger_log ERROR (case e of PdfConversionError msg c \<Rightarrow> msg | _ \<Rightarrow> []) w'"
    from Inl run Cons.prems(1) obtain rs' where b: "batch_spec ds out ?w = (rs', w_end)"
      and rs: "rs = Inl e # rs'"
      by (auto split: prod.splits)
    from rs Cons.prems(2) have no: "\<forall>r \<in> set rs'. \<forall>e. r \<noteq> Inl (OSError e)"
      and "\<forall>e'. e \<noteq> OSError e'" by auto
    with pdf_to_pngs_raises [OF run [unfolded Inl]] obtain m c where e: "e = PdfConversionError m c"
      by blast
    from Cons.IH [OF b no, of 1] run Inl e rs show ?thesis by simp
  qed
qed

lemma main_batch_isolated:
  assumes "parse_args args w = Inr ns"
    and "configure_logging (ns_output_dir ns) (ns_log_level ns) (ns_log_to_console ns) w
           = (Inr (), w1)"
    and "is_dir w1 (ns_input_dir ns) = Inr True"
    and "os_access_W w1 (ns_output_dir ns)"
    and "glob_pdf (fs w1) (ns_input_dir ns) = pdf_files"
    and "pdf_files \<noteq> []"
    and "batch_spec pdf_files (ns_output_dir ns) w1 = (rs, w_end)"
    and "\<forall>r \<in> set rs. \<forall>e. r \<noteq> Inl (OSError e)"
  shows "main args w = (Inr (if \<exists>r \<in> set rs. isl r then 1 else 0), w_end)
         \<and> length rs = length pdf_files
         \<and> (\<forall>m c. Inl (PdfConversionError m c) \<in> set rs \<longrightarrow> (ERROR, m) \<in> set (logged w_end))"
proof -
  from main_after_setup [OF assms(1,2,3)] assms(4-6)
  have "main args w = convert_all pdf_files (ns_output_dir ns) 0 w1" by simp
  with convert_all_batch [OF assms(7,8), of 0]
  have "main args w = (Inr (if \<exists>r \<in> set rs. isl r then 1 else 0), w_end)" by simp
  with batch_spec_length [OF assms(7)] batch_spec_errors_logged [OF assms(7)]
  show ?thesis by blast
qed

text \<open>An \<open>OSError\<close> out of the converter ends the loop: the documents after it are
  not converted and no exit code is returned.\<close>

lemma convert_all_aborts:
  "pdf_to_pngs d out False w = (Inl (OSError e), w') \<Longrightarrow>
     convert_all (d # rest) out code w = (Inl (OSError e), w')"
  by simp

text \<open>
  C3. The input directory holds two decodable documents; the first has a name so long
  that the name of its first page exceeds what a file name may have, so that
  \<open>output_path.exists()\<close>, which stands outside the \<open>try\<close> block of \<open>pdf_to_pngs\<close>,
  raises \<open>OSError\<close>. \<open>pdf_to_pngs\<close> lets it through, the loop of \<open>main\<close> catches only
  \<open>PdfConversionError\<close>, and \<open>main\<close> ends with the \<open>OSError\<close>: it returns no exit code,
  logs nothing, and the second document, the report, is never converted. By
  \<open>main_batch_isolated\<close> the loop isolates every failure that is a
  \<open>PdfConversionError\<close>.
\<close>

theorem main_batch_aborted:
  "glob_pdf (fs long_name_world) [''data''] = [long_pdf, report_pdf]
   \<and> convert_from_path long_name_world long_pdf = Inr [Image 3]
   \<and> convert_from_path long_name_world report_pdf = Inr [Image 1, Image 2]
   \<and> path_exists long_name_world (page_path [''out''] long_pdf 1) = Inl NameTooLongError
   \<and> fst (pdf_to_pngs long_pdf [''out''] False long_name_world) = Inl (OSError NameTooLongError)
   \<and> fst (main [InputDirArg [''data''], OutputDirArg [''out'']] long_name_world)
        = Inl (OSError NameTooLongError)
   \<and> logged (snd (main [InputDirArg [''data''], OutputDirArg [''out'']] long_name_world)) = []
   \<and> png_files (fs (snd (main [InputDirArg [''data''], OutputDirArg [''out'']] long_name_world)))
        = []"
proof -
  have "glob_pdf (fs long_name_world) [''data''] = [long_pdf, report_pdf]" by code_simp
  moreover have "convert_from_path long_name_world long_pdf = Inr [Image 3]" by code_simp
  moreover have "convert_from_path long_name_world report_pdf = Inr [Image 1, Image 2]"
    by code_simp
  moreover have "path_exists long_name_world (page_path [''out''] long_pdf 1)
      = Inl NameTooLongError" by code_simp
  moreover have "fst (pdf_to_pngs long_pdf [''out''] False long_name_world)
      = Inl (OSError NameTooLongError)" by code_simp
  moreover have "fst (main [InputDirArg [''data''], OutputDirArg [''out'']] long_name_world)
        = Inl (OSError NameTooLongError)" by code_simp
  moreover have "logged (snd (main [InputDirArg [''data''], OutputDirArg [''out'']] long_name_world))
      = []" by code_simp
  moreover have "png_files (fs (snd (main [InputDirArg [''data''], OutputDirArg [''out'']]
      long_name_world))) = []" by code_simp
  ultimately show ?thesis by blast
qed

end
